theory Spec2Isabelle
  imports Complex_Main
begin

section \<open>The battery management controller of \<^verbatim>\<open>BMS.py\<close>\<close>

text \<open>
  A shallow embedding of the class \<^verbatim>\<open>BMS\<close>: its attributes and the outputs it drives are
  the fields of one record, every method is a function from the record to its updated
  value, and the hardware the controller samples (ADC batch reads, temperature sensors,
  the serial receive buffer) is an explicit input of the tick.

  Conventions of the embedding:
  \<^item> Python floats are idealised as \<open>real\<close>, Python ints as \<open>int\<close>; counts and list
    positions are \<open>nat\<close>.
  \<^item> A byte on the serial line is a \<open>char\<close> (8 bits); text written with
    \<^verbatim>\<open>bytes(s, 'utf-8')\<close> is the string itself, as every rendered value is ASCII.
  \<^item> \<^verbatim>\<open>self.cellCount\<close> is assigned once (20) and never written again: it is a constant.
  \<^item> \<^verbatim>\<open>print\<close> is kept for the \<^verbatim>\<open>[ALERT]\<close> lines only, as tags on a console list;
    \<^verbatim>\<open>time.sleep\<close> and the status LED change no attribute and are left out.
  \<^item> The builtins \<^verbatim>\<open>float\<close>, \<^verbatim>\<open>int\<close> and \<^verbatim>\<open>str\<close> (of a float) are parameters of the
    serial protocol; a parse that raises \<^verbatim>\<open>ValueError\<close> is the value \<open>None\<close>.
  \<^item> An exception that leaves \<^verbatim>\<open>update\<close> is returned next to the state reached when it
    was raised.
\<close>

subsection \<open>Python builtins\<close>

datatype exn = TypeError | IndexError | UnboundLocalError

datatype flow = Continue | Return | Raise exn

datatype alert =
    AlertPreviousFault
  | AlertThermal
  | AlertTargetRange
  | AlertRapidChange
  | AlertCellAbove nat
  | AlertCellBelow nat

record py =
  float_of :: "string \<Rightarrow> real option"
  int_of :: "string \<Rightarrow> int option"
  str_of :: "real \<Rightarrow> string"

text \<open>\<^verbatim>\<open>max\<close> and \<^verbatim>\<open>min\<close> of a list; every call site passes a list that is not empty.\<close>

definition py_max :: "real list \<Rightarrow> real" where
  "py_max xs = fold max (tl xs) (hd xs)"

definition py_min :: "real list \<Rightarrow> real" where
  "py_min xs = fold min (tl xs) (hd xs)"

text \<open>\<^verbatim>\<open>round(x)\<close> rounds to the nearest integer, a tie to the even one.\<close>

definition py_round :: "real \<Rightarrow> int" where
  "py_round x =
     (let f = \<lfloor>x\<rfloor>; d = x - of_int f
      in if d < 1 / 2 then f
         else if 1 / 2 < d then f + 1
         else if even f then f else f + 1)"

text \<open>\<^verbatim>\<open>round(x, 2)\<close>, on the idealised value.\<close>

definition py_round2 :: "real \<Rightarrow> real" where
  "py_round2 x = of_int (py_round (x * 100)) / 100"

text \<open>\<^verbatim>\<open>xs.index(v)\<close>: the first position holding \<open>v\<close>.\<close>

definition index_of :: "real list \<Rightarrow> real \<Rightarrow> nat" where
  "index_of xs v = length (takeWhile (\<lambda>y. y \<noteq> v) xs)"

text \<open>\<^verbatim>\<open>str\<close> of an int: decimal digits, with a minus sign when negative.\<close>

fun str_nat :: "nat \<Rightarrow> string" where
  "str_nat n =
     (if n < 10 then [char_of (48 + n)]
      else str_nat (n div 10) @ [char_of (48 + n mod 10)])"

declare str_nat.simps [simp del]

definition str_int :: "int \<Rightarrow> string" where
  "str_int i = (if i < 0 then CHR ''-'' # str_nat (nat (- i)) else str_nat (nat i))"

subsection \<open>A decimal instance of the builtins\<close>

text \<open>
  The plain decimal fragment of Python's numeric literals (an optional sign, digits, an
  optional fraction), for running the controller on concrete serial traffic.
\<close>

definition digit_of :: "char \<Rightarrow> nat option" where
  "digit_of c =
     (let n = (of_char c :: nat) in if 48 \<le> n \<and> n \<le> 57 then Some (n - 48) else None)"

fun digits_val :: "string \<Rightarrow> nat \<Rightarrow> nat option" where
  "digits_val [] acc = Some acc"
| "digits_val (c # cs) acc =
     (case digit_of c of None \<Rightarrow> None | Some d \<Rightarrow> digits_val cs (10 * acc + d))"

definition dec_nat :: "string \<Rightarrow> nat option" where
  "dec_nat s = (if s = [] then None else digits_val s 0)"

definition dec_unsigned :: "string \<Rightarrow> real option" where
  "dec_unsigned s =
     (let ip = takeWhile (\<lambda>c. c \<noteq> CHR ''.'') s;
          rest = dropWhile (\<lambda>c. c \<noteq> CHR ''.'') s
      in case rest of
           [] \<Rightarrow> map_option real (dec_nat ip)
         | _ # fp \<Rightarrow>
             if ip = [] \<and> fp = [] then None
             else (case digits_val ip 0 of
                     None \<Rightarrow> None
                   | Some a \<Rightarrow>
                       (case digits_val fp 0 of
                          None \<Rightarrow> None
                        | Some b \<Rightarrow> Some (real a + real b / 10 ^ length fp))))"

definition dec_float :: "string \<Rightarrow> real option" where
  "dec_float s =
     (case s of
        [] \<Rightarrow> None
      | c # cs \<Rightarrow>
          if c = CHR ''-'' then map_option uminus (dec_unsigned cs)
          else if c = CHR ''+'' then dec_unsigned cs
          else dec_unsigned s)"

definition dec_int :: "string \<Rightarrow> int option" where
  "dec_int s =
     (case s of
        [] \<Rightarrow> None
      | c # cs \<Rightarrow>
          if c = CHR ''-'' then map_option (\<lambda>n. - int n) (dec_nat cs)
          else if c = CHR ''+'' then map_option int (dec_nat cs)
          else map_option int (dec_nat s))"

fun frac_digits :: "nat \<Rightarrow> real \<Rightarrow> string" where
  "frac_digits 0 f = []"
| "frac_digits (Suc n) f =
     (let d = nat \<lfloor>f * 10\<rfloor>; r = f * 10 - real d
      in char_of (48 + d) # (if r = 0 then [] else frac_digits n r))"

definition dec_str :: "real \<Rightarrow> string" where
  "dec_str x =
     (if x < 0 then ''-'' else []) @ str_nat (nat \<lfloor>\<bar>x\<bar>\<rfloor>) @ ''.'' @
     frac_digits 16 (\<bar>x\<bar> - of_int \<lfloor>\<bar>x\<bar>\<rfloor>)"

definition decimal_py :: py where
  "decimal_py = \<lparr>float_of = dec_float, int_of = dec_int, str_of = dec_str\<rparr>"

subsection \<open>The controller's state\<close>

record bms =
  mode :: int
  drain :: "int list"
  gpio :: "nat list"
  uart_out :: "char list"
  tmpCount :: nat
  temps :: "real list"
  maxTemp :: real
  fanTrigger :: real
  fan :: bool
  buz :: bool
  relay :: bool
  cells :: "real list"
  lastCells :: "real list"
  minVoltage :: real
  maxVoltage :: real
  targetVoltage :: real
  dV :: real
  balTime :: int
  testBalCount :: int
  error :: bool
  verbose :: bool
  battVoltage :: real
  capacity :: int
  meanVoltage :: real
  minCell :: real
  maxCell :: real
  minCellIndex :: nat
  maxCellindex :: nat
  charging :: bool
  balancing :: bool
  nvm0 :: nat
  adc_asleep :: bool
  console :: "alert list"

text \<open>
  \<open>gpio\<close> holds the output byte of each I/O expander of \<^verbatim>\<open>mcpArr\<close>, \<open>tmpCount\<close> is
  \<^verbatim>\<open>len(tmpArr)\<close>, \<open>uart_out\<close> every byte written to the serial line so far, \<open>nvm0\<close> the
  byte \<^verbatim>\<open>microcontroller.nvm[0]\<close>, \<open>adc_asleep\<close> whether \<^verbatim>\<open>sleepAll\<close> was called.
\<close>

text \<open>What the hardware presents at construction.\<close>

record hw =
  tmpArr_len :: nat
  mcpArr_len :: nat
  nvm_byte :: nat
  buzzer0 :: bool
  relay0 :: bool
  fan0 :: bool

text \<open>
  What the hardware presents during one tick: the \<open>k\<close>-th batch read of the ADCs by
  physical channel, the \<open>k\<close>-th scan of the temperature sensors (raw 16-bit counts) and of
  the CPU sensor, and the results of \<^verbatim>\<open>uart.read(1)\<close> and \<^verbatim>\<open>uart.read()\<close>
  (\<open>None\<close> when no byte arrived).
\<close>

record tick_in =
  fetchAll :: "nat \<Rightarrow> nat \<Rightarrow> real"
  tmp_value :: "nat \<Rightarrow> nat \<Rightarrow> int"
  cpu_temperature :: "nat \<Rightarrow> real"
  uart_read1 :: "string option"
  uart_read :: "string option"

definition cellCount :: nat where
  "cellCount = 20"

definition cellPos :: "nat list" where
  "cellPos = [18, 15, 12, 6, 3, 9, 0, 7, 16, 13, 10, 19, 1, 4, 20, 17, 11, 5, 2, 14]"

subsection \<open>Telemetry\<close>

definition getCells :: "(nat \<Rightarrow> real) \<Rightarrow> bms \<Rightarrow> bms" where
  "getCells cellRead s =
     (let cs = fold (\<lambda>i c. c[i := cellRead (cellPos ! i)]) [0..<20] (cells s);
          bv = sum_list cs
      in s\<lparr>cells := cs,
           battVoltage := bv,
           capacity := min (max (py_round ((100 / (84 - 68)) * (bv - 68))) 0) 100,
           meanVoltage := sum_list cs / real cellCount\<rparr>)"

definition read_temps :: "tick_in \<Rightarrow> nat \<Rightarrow> bms \<Rightarrow> real list" where
  "read_temps inp k s =
     map py_round2
       (map (\<lambda>i. (150 / 1.5) * ((real_of_int (tmp_value inp k i) * 3.3 / 65536) - 0.5))
          [0..<tmpCount s]
        @ [cpu_temperature inp k])"

definition getTemps :: "tick_in \<Rightarrow> nat \<Rightarrow> bms \<Rightarrow> bms \<times> bool" where
  "getTemps inp k s =
     (let s1 = s\<lparr>temps := read_temps inp k s\<rparr>;
          s2 = s1\<lparr>fan := (fanTrigger s1 < py_max (temps s1))\<rparr>
      in if maxTemp s2 + 20 < py_max (temps s2)
         then (s2\<lparr>console := console s2 @ [AlertThermal], buz := True, mode := 2\<rparr>, True)
         else (s2, False))"

subsection \<open>Discharge outputs\<close>

definition pack_bits :: "int list \<Rightarrow> nat" where
  "pack_bits xs = sum_list (map (\<lambda>j. if xs ! j = 1 then 2 ^ j else 0) [0..<length xs])"

definition sendIO :: "bms \<Rightarrow> bms" where
  "sendIO s =
     s\<lparr>gpio := map (\<lambda>i. pack_bits (take 8 (drop (8 * i) (drain s)))) [0..<length (gpio s)]\<rparr>"

subsection \<open>Construction\<close>

definition init :: "hw \<Rightarrow> (nat \<Rightarrow> real) \<Rightarrow> bms" where
  "init h cellRead =
     (let s0 = \<lparr>mode = 0,
                drain = replicate 24 0,
                gpio = replicate (mcpArr_len h) 0,
                uart_out = [char_of (127 :: nat)],
                tmpCount = tmpArr_len h,
                temps = replicate (tmpArr_len h) 0,
                maxTemp = 80,
                fanTrigger = 50,
                fan = fan0 h,
                buz = buzzer0 h,
                relay = relay0 h,
                cells = replicate cellCount 0,
                lastCells = [],
                minVoltage = 3.4,
                maxVoltage = 4.25,
                targetVoltage = 3.85,
                dV = 0.01,
                balTime = 32,
                testBalCount = 0,
                error = False,
                verbose = False,
                battVoltage = 0,
                capacity = 0,
                meanVoltage = 0,
                minCell = 0,
                maxCell = 0,
                minCellIndex = 0,
                maxCellindex = 0,
                charging = False,
                balancing = False,
                nvm0 = (if nvm_byte h = 1 then 0 else nvm_byte h),
                adc_asleep = False,
                console = (if nvm_byte h = 1 then [AlertPreviousFault] else [])\<rparr>;
          s1 = getCells cellRead s0
      in s1\<lparr>lastCells := cells s1\<rparr>)"

text \<open>
  \<open>minCell\<close>, \<open>maxCell\<close>, their indices, \<open>charging\<close> and \<open>balancing\<close> do not exist as
  attributes until \<^verbatim>\<open>update\<close> or \<^verbatim>\<open>balance\<close> first assigns them, which happens before any
  read; the values given to them here are never read.
\<close>

subsection \<open>Balancing\<close>

definition charge_decision :: "bms \<Rightarrow> bms" where
  "charge_decision s =
     (if (minCell s < minVoltage s \<or> meanVoltage s < targetVoltage s - dV s / 2)
         \<and> maxCell s < maxVoltage s - 0.05
      then s\<lparr>charging := True, relay := True\<rparr>
      else s\<lparr>charging := False\<rparr>)"

definition choose_target :: "bms \<Rightarrow> real option" where
  "choose_target s =
     (if dV s < maxCell s - minCell s then Some (minCell s + dV s / 2)
      else if targetVoltage s < meanVoltage s then Some (targetVoltage s)
      else None)"

definition toDschg :: "real \<Rightarrow> bms \<Rightarrow> nat list" where
  "toDschg target s = filter (\<lambda>i. target < cells s ! i) [0..<cellCount]"

definition sorted_toDschg :: "real \<Rightarrow> bms \<Rightarrow> nat list" where
  "sorted_toDschg target s = sort_key (\<lambda>x. - (cells s ! x)) (toDschg target s)"

definition count_of :: "nat list \<Rightarrow> nat" where
  "count_of ds = (if length ds \<le> cellCount div 2 then length ds else cellCount div 2)"

definition select_cells :: "real \<Rightarrow> bms \<Rightarrow> bms" where
  "select_cells target s =
     (let d1 = fold (\<lambda>i d. if target < cells s ! i then d else d[i := 0])
                 [0..<cellCount] (drain s);
          ds = sorted_toDschg target s;
          d2 = fold (\<lambda>i d. d[ds ! i := 1]) [0..<count_of ds] d1
      in sendIO (s\<lparr>drain := d2\<rparr>))"

definition balance_decision :: "bms \<Rightarrow> bms \<times> exn option" where
  "balance_decision s =
     (if (dV s < maxCell s - minCell s \<or> targetVoltage s + dV s / 2 < meanVoltage s)
         \<and> minVoltage s < minCell s
      then (let s1 = s\<lparr>balancing := True, testBalCount := 0\<rparr>
            in case choose_target s1 of
                 None \<Rightarrow> (s1, Some UnboundLocalError)
               | Some target \<Rightarrow> (select_cells target s1, None))
      else (s\<lparr>balancing := False\<rparr>, None))"

fun temp_watch :: "tick_in \<Rightarrow> nat \<Rightarrow> nat \<Rightarrow> bms \<Rightarrow> bms" where
  "temp_watch inp k 0 s = s"
| "temp_watch inp k (Suc n) s =
     (let s1 = fst (getTemps inp k s)
      in if maxTemp s1 < py_max (temps s1) then s1 else temp_watch inp (Suc k) n s1)"

definition balance_finish :: "tick_in \<Rightarrow> bms \<Rightarrow> bms" where
  "balance_finish inp s =
     (if \<not> balancing s \<and> \<not> charging s then
        (if testBalCount s < 4 then s\<lparr>testBalCount := testBalCount s + 1\<rparr>
         else s\<lparr>buz := False, mode := 0, testBalCount := 0\<rparr>)
      else (temp_watch inp 1 (nat (balTime s div 8)) s)
             \<lparr>drain := replicate cellCount 0, relay := False\<rparr>)"

definition balance :: "tick_in \<Rightarrow> bms \<Rightarrow> bms \<times> exn option" where
  "balance inp s =
     (if targetVoltage s < minVoltage s \<or> maxVoltage s < targetVoltage s then
        (sendIO (s\<lparr>console := console s @ [AlertTargetRange],
                   buz := True, relay := False, mode := 0,
                   drain := replicate cellCount 0\<rparr>), None)
      else (case balance_decision (charge_decision s) of
              (s2, Some e) \<Rightarrow> (s2, Some e)
            | (s2, None) \<Rightarrow> (balance_finish inp s2, None)))"

subsection \<open>The tick\<close>

definition dCells :: "bms \<Rightarrow> real list" where
  "dCells s = map (\<lambda>i. cells s ! i - lastCells s ! i) [0..<cellCount]"

fun measure_loop :: "tick_in \<Rightarrow> nat \<Rightarrow> nat \<Rightarrow> bms \<Rightarrow> bms" where
  "measure_loop inp k 0 s = s"
| "measure_loop inp k (Suc n) s =
     (let s1 = getCells (fetchAll inp k) s
      in if mode s1 = 1 then
           (if 0.05 < py_max (dCells s1) \<or> py_min (dCells s1) < - 0.05
            then measure_loop inp (Suc k) n (s1\<lparr>error := True\<rparr>)
            else s1\<lparr>error := False\<rparr>)
         else s1)"

definition scan_cell :: "nat \<Rightarrow> bms \<Rightarrow> bms" where
  "scan_cell i t =
     (if maxVoltage t < cells t ! i
      then t\<lparr>console := console t @ [AlertCellAbove i], mode := 2\<rparr>
      else if cells t ! i < minVoltage t
      then t\<lparr>console := console t @ [AlertCellBelow i], mode := 2\<rparr>
      else t)"

definition scan_limits :: "bms \<Rightarrow> bms" where
  "scan_limits s = fold scan_cell [0..<cellCount] s"

definition monitor :: "tick_in \<Rightarrow> bms \<Rightarrow> bms \<times> flow" where
  "monitor inp s =
     (let s2 = measure_loop inp 0 4 (sendIO s);
          s3 = (if error s2
                then s2\<lparr>buz := True, nvm0 := 1, mode := 2,
                        console := console s2 @ [AlertRapidChange]\<rparr>
                else s2);
          s4 = s3\<lparr>lastCells := cells s3\<rparr>
      in if mode s4 = 2 then (s4, Return)
         else (let s5 = scan_limits (s4\<lparr>buz := False\<rparr>)
               in if mode s5 = 2 then (s5\<lparr>buz := False\<rparr>, Return)
                  else (let s6 = s5\<lparr>minCell := py_min (cells s5),
                                     maxCell := py_max (cells s5),
                                     minCellIndex := index_of (cells s5) (py_min (cells s5)),
                                     maxCellindex := index_of (cells s5) (py_max (cells s5))\<rparr>;
                            r = getTemps inp 0 s6
                        in if snd r then (fst r, Return) else (fst r, Continue))))"

definition actions :: "tick_in \<Rightarrow> bms \<Rightarrow> bms \<times> flow" where
  "actions inp s =
     (if mode s = 1 then
        (if py_max (temps s) < maxTemp s
         then (case balance inp s of
                 (s1, None) \<Rightarrow> (s1, Continue)
               | (s1, Some e) \<Rightarrow> (s1, Raise e))
         else (s, Continue))
      else if mode s = 2 then
        ((sendIO (s\<lparr>buz := False, relay := False, drain := replicate cellCount 0\<rparr>))
           \<lparr>adc_asleep := True\<rparr>, Continue)
      else (s, Continue))"

subsection \<open>The serial protocol\<close>

definition write_reg :: "py \<Rightarrow> nat \<Rightarrow> string \<Rightarrow> bms \<Rightarrow> bms option" where
  "write_reg p command data s =
     (if command = 128 then
        Some (if data = ''0'' then s\<lparr>mode := 0\<rparr>
              else if data = ''1'' then s\<lparr>mode := 1\<rparr>
              else if data = ''2'' then s\<lparr>mode := 2\<rparr>
              else s)
      else if command = 133 then map_option (\<lambda>v. s\<lparr>targetVoltage := v\<rparr>) (float_of p data)
      else if command = 129 then map_option (\<lambda>v. s\<lparr>maxTemp := v\<rparr>) (float_of p data)
      else if command = 130 then map_option (\<lambda>v. s\<lparr>fanTrigger := v\<rparr>) (float_of p data)
      else if command = 131 then map_option (\<lambda>v. s\<lparr>minVoltage := v\<rparr>) (float_of p data)
      else if command = 132 then map_option (\<lambda>v. s\<lparr>maxVoltage := v\<rparr>) (float_of p data)
      else if command = 134 then map_option (\<lambda>v. s\<lparr>dV := v\<rparr>) (float_of p data)
      else if command = 135 then map_option (\<lambda>v. s\<lparr>balTime := v\<rparr>) (int_of p data)
      else if command = 136 then Some (s\<lparr>verbose := (data \<noteq> [])\<rparr>)
      else Some s)"

definition pad :: "nat \<Rightarrow> string \<Rightarrow> string" where
  "pad w t = t @ replicate (w - length t) CHR ''0''"

definition read_reg :: "py \<Rightarrow> nat \<Rightarrow> bms \<Rightarrow> string" where
  "read_reg p command s =
     (if command = 1 then pad 7 (str_of p (battVoltage s))
      else if command = 2 then str_int (capacity s)
      else if command = 3 then pad 7 (str_of p (meanVoltage s))
      else if command = 4 then concat (map (\<lambda>cell. pad 7 (str_of p cell) @ [CHR 0x0A]) (cells s))
      else if command = 5 then concat (map (\<lambda>temp. pad 5 (str_of p temp) @ [CHR 0x0A]) (temps s))
      else if command = 6 then (if mode s = 2 then ''1'' else ''0'')
      else [])"

definition sercom :: "py \<Rightarrow> tick_in \<Rightarrow> bms \<Rightarrow> bms \<times> exn option" where
  "sercom p inp s =
     (case uart_read1 inp of
        None \<Rightarrow> (s, None)
      | Some recv \<Rightarrow>
          (case recv of
             [] \<Rightarrow> (s, Some IndexError)
           | c # _ \<Rightarrow>
               (let command = (of_char c :: nat)
                in if 128 \<le> command then
                     (case uart_read inp of
                        None \<Rightarrow> (s, Some TypeError)
                      | Some data \<Rightarrow>
                          (case write_reg p command data s of
                             None \<Rightarrow>
                               (s\<lparr>uart_out := uart_out s @ replicate 255 (char_of (0 :: nat))\<rparr>,
                                None)
                           | Some s1 \<Rightarrow> (s1, None)))
                   else (s\<lparr>uart_out := uart_out s @ read_reg p command s\<rparr>, None))))"

definition control :: "tick_in \<Rightarrow> bms \<Rightarrow> bms \<times> flow" where
  "control inp s =
     (case (if mode s = 0 \<or> mode s = 1 then monitor inp s else (s, Continue)) of
        (s1, Continue) \<Rightarrow> actions inp s1
      | (s1, Return) \<Rightarrow> (s1, Return)
      | (s1, Raise e) \<Rightarrow> (s1, Raise e))"

definition update :: "py \<Rightarrow> tick_in \<Rightarrow> bms \<Rightarrow> bms \<times> exn option" where
  "update p inp s =
     (case control inp s of
        (s2, Continue) \<Rightarrow> sercom p inp s2
      | (s2, Return) \<Rightarrow> (s2, None)
      | (s2, Raise e) \<Rightarrow> (s2, Some e))"

text \<open>
  \<open>monitor\<close> is the block of \<^verbatim>\<open>update\<close> guarded by \<^verbatim>\<open>mode == 0 or mode == 1\<close> (settle,
  bounded re-measurement, limit scan, thermal scan), \<open>actions\<close> the mode-specific step
  that follows it, \<open>control\<close> the two in sequence and \<open>sercom\<close> the serial service that
  ends the tick.
\<close>

subsection \<open>States the controller can be in between ticks\<close>

inductive reachable :: "py \<Rightarrow> bms \<Rightarrow> bool" for p :: py where
  boot: "reachable p (init h cellRead)"
| tick: "reachable p s \<Longrightarrow> reachable p (fst (update p inp s))"

text \<open>The states that follow a state \<open>s\<close> after any number of further ticks.\<close>

inductive later :: "py \<Rightarrow> bms \<Rightarrow> bms \<Rightarrow> bool" for p :: py and s :: bms where
  now: "later p s s"
| next_tick: "later p s t \<Longrightarrow> later p s (fst (update p inp t))"

text \<open>The list attributes keep the lengths \<^verbatim>\<open>__init__\<close> gives them.\<close>

definition wf :: "bms \<Rightarrow> bool" where
  "wf s \<longleftrightarrow>
     length (cells s) = cellCount \<and> length (lastCells s) = cellCount \<and>
     (length (drain s) = 24 \<or> length (drain s) = cellCount)"

text \<open>No cell is marked for discharge.\<close>

definition drained :: "bms \<Rightarrow> bool" where
  "drained s \<longleftrightarrow> set (drain s) \<subseteq> {0}"

definition ones :: "int list \<Rightarrow> nat" where
  "ones d = length (filter (\<lambda>x. x = 1) d)"

subsection \<open>Concrete hardware and traffic\<close>

definition hw3 :: hw where
  "hw3 = \<lparr>tmpArr_len = 4, mcpArr_len = 3, nvm_byte = 0,
           buzzer0 = False, relay0 = False, fan0 = False\<rparr>"

text \<open>
  A tick in which the ADC channels read \<open>rd\<close> at every batch, every board sensor reads
  the raw count 0 (\<open>-50\<close> degrees), the CPU sensor reads \<open>t\<close> and the serial reads return
  \<open>r1\<close> and \<open>r\<close>.
\<close>

definition steady :: "(nat \<Rightarrow> real) \<Rightarrow> real \<Rightarrow> string option \<Rightarrow> string option \<Rightarrow> tick_in" where
  "steady rd t r1 r =
     \<lparr>fetchAll = (\<lambda>k. rd), tmp_value = (\<lambda>k i. 0), cpu_temperature = (\<lambda>k. t),
      uart_read1 = r1, uart_read = r\<rparr>"

text \<open>All cells at the same voltage.\<close>

definition even_pack :: "real \<Rightarrow> nat \<Rightarrow> real" where
  "even_pack v = (\<lambda>c. v)"

text \<open>
  Cells 0 to 18 at 4.20 V and cell 19, wired to channel 14, at 3.50 V.
\<close>

definition uneven_pack :: "nat \<Rightarrow> real" where
  "uneven_pack = (\<lambda>c. if c = 14 then 3.5 else 4.2)"


text \<open>
  The state in which \<^verbatim>\<open>balance\<close> is entered on the uneven pack: the controller boots on
  it, the host writes mode 1 during the first tick, and the second tick has measured the
  cells and the temperatures.
\<close>

definition active_uneven :: bms where
  "active_uneven =
     fst (monitor (steady uneven_pack 25 None None)
       (fst (update decimal_py (steady uneven_pack 25 (Some [CHR 0x80]) (Some ''1''))
          (init hw3 uneven_pack))))"

subsection \<open>Notions the properties are stated with\<close>

text \<open>The capacity map as the design states it.\<close>

definition Vfull :: real where
  "Vfull = 84"

definition Vempty :: real where
  "Vempty = 68"

definition spec_clamp :: "int \<Rightarrow> int \<Rightarrow> int \<Rightarrow> int" where
  "spec_clamp x lo hi = (if x < lo then lo else if hi < x then hi else x)"

text \<open>
  Some cell's reading differs from its previous snapshot by more than 0.05 V, up or down.
\<close>

definition unstable :: "(nat \<Rightarrow> real) \<Rightarrow> real list \<Rightarrow> bool" where
  "unstable cellRead prev \<longleftrightarrow>
     (\<exists>i<cellCount. 0.05 < cellRead (cellPos ! i) - prev ! i
                    \<or> cellRead (cellPos ! i) - prev ! i < - 0.05)"

text \<open>
  The tick reaches its thermal scan: the measurement settled and no cell is outside the
  configured band.
\<close>

definition scan_ok :: "tick_in \<Rightarrow> bms \<Rightarrow> bool" where
  "scan_ok inp s \<longleftrightarrow>
     \<not> error (measure_loop inp 0 4 (sendIO s)) \<and>
     list_all (\<lambda>v. minVoltage s \<le> v \<and> v \<le> maxVoltage s)
       (cells (measure_loop inp 0 4 (sendIO s)))"

section \<open>Properties\<close>

subsection \<open>Frame lemmas\<close>

lemma py_max_Max: "xs \<noteq> [] \<Longrightarrow> py_max xs = Max (set xs)"
proof (cases xs)
  case (Cons a l)
  then show ?thesis unfolding py_max_def by (simp only: list.sel Max.set_eq_fold)
qed simp

lemma py_min_Min: "xs \<noteq> [] \<Longrightarrow> py_min xs = Min (set xs)"
proof (cases xs)
  case (Cons a l)
  then show ?thesis unfolding py_min_def by (simp only: list.sel Min.set_eq_fold)
qed simp

lemma length_fold_update [simp]:
  "length (fold (\<lambda>i c. c[i := f i]) js c) = length c"
  by (induction js arbitrary: c) simp_all

lemma fold_update_upt:
  "length c = n \<Longrightarrow> fold (\<lambda>i c. c[i := f i]) [0..<n] c = map f [0..<n]"
proof -
  have "m \<le> length c \<Longrightarrow> fold (\<lambda>i c. c[i := f i]) [0..<m] c = map f [0..<m] @ drop m c" for m
  proof (induction m)
    case 0
    show ?case by simp
  next
    case (Suc m)
    then have "m < length c" by simp
    then have "(map f [0..<m] @ drop m c)[m := f m] = map f [0..<m] @ (f m # drop (Suc m) c)"
      by (simp add: list_update_append Cons_nth_drop_Suc [symmetric])
    with Suc show ?case by simp
  qed
  from this [of n] show "length c = n \<Longrightarrow> ?thesis" by simp
qed

lemma getCells_frame [simp]:
  "mode (getCells r s) = mode s" "drain (getCells r s) = drain s"
  "gpio (getCells r s) = gpio s" "uart_out (getCells r s) = uart_out s"
  "tmpCount (getCells r s) = tmpCount s" "temps (getCells r s) = temps s"
  "maxTemp (getCells r s) = maxTemp s" "fanTrigger (getCells r s) = fanTrigger s"
  "fan (getCells r s) = fan s" "buz (getCells r s) = buz s"
  "relay (getCells r s) = relay s" "lastCells (getCells r s) = lastCells s"
  "minVoltage (getCells r s) = minVoltage s" "maxVoltage (getCells r s) = maxVoltage s"
  "targetVoltage (getCells r s) = targetVoltage s" "dV (getCells r s) = dV s"
  "balTime (getCells r s) = balTime s" "testBalCount (getCells r s) = testBalCount s"
  "error (getCells r s) = error s" "verbose (getCells r s) = verbose s"
  "minCell (getCells r s) = minCell s" "maxCell (getCells r s) = maxCell s"
  "minCellIndex (getCells r s) = minCellIndex s" "maxCellindex (getCells r s) = maxCellindex s"
  "charging (getCells r s) = charging s" "balancing (getCells r s) = balancing s"
  "nvm0 (getCells r s) = nvm0 s" "adc_asleep (getCells r s) = adc_asleep s"
  "console (getCells r s) = console s" "length (cells (getCells r s)) = length (cells s)"
  by (simp_all add: getCells_def Let_def)

lemma getCells_cells:
  "length (cells s) = cellCount \<Longrightarrow>
   cells (getCells r s) = map (\<lambda>i. r (cellPos ! i)) [0..<cellCount]"
  by (simp add: getCells_def Let_def cellCount_def fold_update_upt)

lemma sendIO_frame [simp]:
  "mode (sendIO s) = mode s" "drain (sendIO s) = drain s"
  "uart_out (sendIO s) = uart_out s" "tmpCount (sendIO s) = tmpCount s"
  "temps (sendIO s) = temps s" "maxTemp (sendIO s) = maxTemp s"
  "fanTrigger (sendIO s) = fanTrigger s" "fan (sendIO s) = fan s"
  "buz (sendIO s) = buz s" "relay (sendIO s) = relay s"
  "cells (sendIO s) = cells s" "lastCells (sendIO s) = lastCells s"
  "minVoltage (sendIO s) = minVoltage s" "maxVoltage (sendIO s) = maxVoltage s"
  "targetVoltage (sendIO s) = targetVoltage s" "dV (sendIO s) = dV s"
  "balTime (sendIO s) = balTime s" "testBalCount (sendIO s) = testBalCount s"
  "error (sendIO s) = error s" "verbose (sendIO s) = verbose s"
  "battVoltage (sendIO s) = battVoltage s" "capacity (sendIO s) = capacity s"
  "meanVoltage (sendIO s) = meanVoltage s" "minCell (sendIO s) = minCell s"
  "maxCell (sendIO s) = maxCell s" "minCellIndex (sendIO s) = minCellIndex s"
  "maxCellindex (sendIO s) = maxCellindex s" "charging (sendIO s) = charging s"
  "balancing (sendIO s) = balancing s" "nvm0 (sendIO s) = nvm0 s"
  "adc_asleep (sendIO s) = adc_asleep s" "console (sendIO s) = console s"
  "length (gpio (sendIO s)) = length (gpio s)"
  by (simp_all add: sendIO_def)

lemma getTemps_frame [simp]:
  "drain (fst (getTemps inp k s)) = drain s" "gpio (fst (getTemps inp k s)) = gpio s"
  "uart_out (fst (getTemps inp k s)) = uart_out s" "tmpCount (fst (getTemps inp k s)) = tmpCount s"
  "maxTemp (fst (getTemps inp k s)) = maxTemp s" "fanTrigger (fst (getTemps inp k s)) = fanTrigger s"
  "relay (fst (getTemps inp k s)) = relay s" "cells (fst (getTemps inp k s)) = cells s"
  "lastCells (fst (getTemps inp k s)) = lastCells s" "minVoltage (fst (getTemps inp k s)) = minVoltage s"
  "maxVoltage (fst (getTemps inp k s)) = maxVoltage s" "targetVoltage (fst (getTemps inp k s)) = targetVoltage s"
  "dV (fst (getTemps inp k s)) = dV s" "balTime (fst (getTemps inp k s)) = balTime s"
  "testBalCount (fst (getTemps inp k s)) = testBalCount s" "error (fst (getTemps inp k s)) = error s"
  "verbose (fst (getTemps inp k s)) = verbose s" "battVoltage (fst (getTemps inp k s)) = battVoltage s"
  "capacity (fst (getTemps inp k s)) = capacity s" "meanVoltage (fst (getTemps inp k s)) = meanVoltage s"
  "minCell (fst (getTemps inp k s)) = minCell s" "maxCell (fst (getTemps inp k s)) = maxCell s"
  "minCellIndex (fst (getTemps inp k s)) = minCellIndex s" "maxCellindex (fst (getTemps inp k s)) = maxCellindex s"
  "charging (fst (getTemps inp k s)) = charging s" "balancing (fst (getTemps inp k s)) = balancing s"
  "nvm0 (fst (getTemps inp k s)) = nvm0 s" "adc_asleep (fst (getTemps inp k s)) = adc_asleep s"
  "temps (fst (getTemps inp k s)) = read_temps inp k s"
  by (simp_all add: getTemps_def Let_def)

lemma measure_loop_frame [simp]:
  "mode (measure_loop inp k n s) = mode s" "drain (measure_loop inp k n s) = drain s"
  "gpio (measure_loop inp k n s) = gpio s" "uart_out (measure_loop inp k n s) = uart_out s"
  "tmpCount (measure_loop inp k n s) = tmpCount s" "temps (measure_loop inp k n s) = temps s"
  "maxTemp (measure_loop inp k n s) = maxTemp s" "fanTrigger (measure_loop inp k n s) = fanTrigger s"
  "fan (measure_loop inp k n s) = fan s" "buz (measure_loop inp k n s) = buz s"
  "relay (measure_loop inp k n s) = relay s" "lastCells (measure_loop inp k n s) = lastCells s"
  "minVoltage (measure_loop inp k n s) = minVoltage s" "maxVoltage (measure_loop inp k n s) = maxVoltage s"
  "targetVoltage (measure_loop inp k n s) = targetVoltage s" "dV (measure_loop inp k n s) = dV s"
  "balTime (measure_loop inp k n s) = balTime s" "testBalCount (measure_loop inp k n s) = testBalCount s"
  "verbose (measure_loop inp k n s) = verbose s" "minCell (measure_loop inp k n s) = minCell s"
  "maxCell (measure_loop inp k n s) = maxCell s" "minCellIndex (measure_loop inp k n s) = minCellIndex s"
  "maxCellindex (measure_loop inp k n s) = maxCellindex s" "charging (measure_loop inp k n s) = charging s"
  "balancing (measure_loop inp k n s) = balancing s" "nvm0 (measure_loop inp k n s) = nvm0 s"
  "adc_asleep (measure_loop inp k n s) = adc_asleep s" "console (measure_loop inp k n s) = console s"
  "length (cells (measure_loop inp k n s)) = length (cells s)"
  by (induction n arbitrary: k s; simp add: Let_def)+

lemma temp_watch_frame [simp]:
  "drain (temp_watch inp k n s) = drain s" "gpio (temp_watch inp k n s) = gpio s"
  "uart_out (temp_watch inp k n s) = uart_out s" "tmpCount (temp_watch inp k n s) = tmpCount s"
  "maxTemp (temp_watch inp k n s) = maxTemp s" "fanTrigger (temp_watch inp k n s) = fanTrigger s"
  "relay (temp_watch inp k n s) = relay s" "cells (temp_watch inp k n s) = cells s"
  "lastCells (temp_watch inp k n s) = lastCells s" "minVoltage (temp_watch inp k n s) = minVoltage s"
  "maxVoltage (temp_watch inp k n s) = maxVoltage s" "targetVoltage (temp_watch inp k n s) = targetVoltage s"
  "dV (temp_watch inp k n s) = dV s" "balTime (temp_watch inp k n s) = balTime s"
  "testBalCount (temp_watch inp k n s) = testBalCount s" "error (temp_watch inp k n s) = error s"
  "verbose (temp_watch inp k n s) = verbose s" "battVoltage (temp_watch inp k n s) = battVoltage s"
  "capacity (temp_watch inp k n s) = capacity s" "meanVoltage (temp_watch inp k n s) = meanVoltage s"
  "minCell (temp_watch inp k n s) = minCell s" "maxCell (temp_watch inp k n s) = maxCell s"
  "minCellIndex (temp_watch inp k n s) = minCellIndex s" "maxCellindex (temp_watch inp k n s) = maxCellindex s"
  "charging (temp_watch inp k n s) = charging s" "balancing (temp_watch inp k n s) = balancing s"
  "nvm0 (temp_watch inp k n s) = nvm0 s" "adc_asleep (temp_watch inp k n s) = adc_asleep s"
  by (induction n arbitrary: k s; simp add: Let_def)+

lemma scan_cell_frame [simp]:
  "drain (scan_cell i s) = drain s" "gpio (scan_cell i s) = gpio s"
  "uart_out (scan_cell i s) = uart_out s" "tmpCount (scan_cell i s) = tmpCount s"
  "temps (scan_cell i s) = temps s" "maxTemp (scan_cell i s) = maxTemp s"
  "fanTrigger (scan_cell i s) = fanTrigger s" "fan (scan_cell i s) = fan s"
  "buz (scan_cell i s) = buz s" "relay (scan_cell i s) = relay s"
  "cells (scan_cell i s) = cells s" "lastCells (scan_cell i s) = lastCells s"
  "minVoltage (scan_cell i s) = minVoltage s" "maxVoltage (scan_cell i s) = maxVoltage s"
  "targetVoltage (scan_cell i s) = targetVoltage s" "dV (scan_cell i s) = dV s"
  "balTime (scan_cell i s) = balTime s" "testBalCount (scan_cell i s) = testBalCount s"
  "error (scan_cell i s) = error s" "verbose (scan_cell i s) = verbose s"
  "battVoltage (scan_cell i s) = battVoltage s" "capacity (scan_cell i s) = capacity s"
  "meanVoltage (scan_cell i s) = meanVoltage s" "minCell (scan_cell i s) = minCell s"
  "maxCell (scan_cell i s) = maxCell s" "minCellIndex (scan_cell i s) = minCellIndex s"
  "maxCellindex (scan_cell i s) = maxCellindex s" "charging (scan_cell i s) = charging s"
  "balancing (scan_cell i s) = balancing s" "nvm0 (scan_cell i s) = nvm0 s"
  "adc_asleep (scan_cell i s) = adc_asleep s"
  by (simp_all add: scan_cell_def)

lemma scan_fold_frame [simp]:
  "drain (fold scan_cell js s) = drain s" "gpio (fold scan_cell js s) = gpio s"
  "uart_out (fold scan_cell js s) = uart_out s" "tmpCount (fold scan_cell js s) = tmpCount s"
  "temps (fold scan_cell js s) = temps s" "maxTemp (fold scan_cell js s) = maxTemp s"
  "fanTrigger (fold scan_cell js s) = fanTrigger s" "fan (fold scan_cell js s) = fan s"
  "buz (fold scan_cell js s) = buz s" "relay (fold scan_cell js s) = relay s"
  "cells (fold scan_cell js s) = cells s" "lastCells (fold scan_cell js s) = lastCells s"
  "minVoltage (fold scan_cell js s) = minVoltage s" "maxVoltage (fold scan_cell js s) = maxVoltage s"
  "targetVoltage (fold scan_cell js s) = targetVoltage s" "dV (fold scan_cell js s) = dV s"
  "balTime (fold scan_cell js s) = balTime s" "testBalCount (fold scan_cell js s) = testBalCount s"
  "error (fold scan_cell js s) = error s" "verbose (fold scan_cell js s) = verbose s"
  "battVoltage (fold scan_cell js s) = battVoltage s" "capacity (fold scan_cell js s) = capacity s"
  "meanVoltage (fold scan_cell js s) = meanVoltage s" "minCell (fold scan_cell js s) = minCell s"
  "maxCell (fold scan_cell js s) = maxCell s" "minCellIndex (fold scan_cell js s) = minCellIndex s"
  "maxCellindex (fold scan_cell js s) = maxCellindex s" "charging (fold scan_cell js s) = charging s"
  "balancing (fold scan_cell js s) = balancing s" "nvm0 (fold scan_cell js s) = nvm0 s"
  "adc_asleep (fold scan_cell js s) = adc_asleep s"
  by (induction js arbitrary: s; simp)+

lemma monitor_frame [simp]:
  "drain (fst (monitor inp s)) = drain s"
  "length (cells (fst (monitor inp s))) = length (cells s)"
  "length (lastCells (fst (monitor inp s))) = length (cells s)"
  "uart_out (fst (monitor inp s)) = uart_out s"
  by (simp_all add: monitor_def Let_def scan_limits_def)

subsection \<open>The drain plan between ticks\<close>

lemma clear_fold_zeros:
  "set d \<subseteq> {0} \<Longrightarrow>
   set (fold (\<lambda>i d. if P i then d else d[i := (0::int)]) js d) \<subseteq> {0}"
proof (induction js arbitrary: d)
  case Nil
  then show ?case by simp
next
  case (Cons j js)
  have "set (d[j := 0]) \<subseteq> {0}"
    using Cons.prems set_update_subset_insert [of d j 0] by auto
  with Cons show ?case by simp
qed

lemma zeros_replicate [simp]: "set (replicate n (0::int)) \<subseteq> {0}"
  by auto

lemma ones_zeros: "set d \<subseteq> {0} \<Longrightarrow> ones d = 0"
  by (auto simp: ones_def filter_empty_conv)

lemma length_clear_fold [simp]:
  "length (fold (\<lambda>i d. if P i then d else d[i := v]) js d) = length d"
  by (induction js arbitrary: d) simp_all

lemma length_set_fold [simp]:
  "length (fold (\<lambda>i d. d[g i := v]) js d) = length d"
  by (induction js arbitrary: d) simp_all

lemma ones_update_le: "ones (d[j := v]) \<le> Suc (ones d)"
  by (induction d arbitrary: j) (auto simp: ones_def split: nat.splits)

lemma ones_fold_le: "ones (fold (\<lambda>i d. d[g i := v]) js d) \<le> ones d + length js"
proof (induction js arbitrary: d)
  case Nil
  show ?case by simp
next
  case (Cons j js)
  have "ones (fold (\<lambda>i d. d[g i := v]) js (d[g j := v])) \<le> ones (d[g j := v]) + length js"
    by (rule Cons.IH)
  also have "\<dots> \<le> Suc (ones d) + length js"
    using ones_update_le [of d "g j" v] by simp
  finally show ?case by simp
qed

lemma count_of_le: "count_of ds \<le> cellCount div 2" "count_of ds \<le> length ds"
  by (simp_all add: count_of_def)

lemma select_cells_frame [simp]:
  "mode (select_cells t s) = mode s" "uart_out (select_cells t s) = uart_out s"
  "tmpCount (select_cells t s) = tmpCount s" "temps (select_cells t s) = temps s"
  "maxTemp (select_cells t s) = maxTemp s" "fanTrigger (select_cells t s) = fanTrigger s"
  "fan (select_cells t s) = fan s" "buz (select_cells t s) = buz s"
  "relay (select_cells t s) = relay s" "cells (select_cells t s) = cells s"
  "lastCells (select_cells t s) = lastCells s" "minVoltage (select_cells t s) = minVoltage s"
  "maxVoltage (select_cells t s) = maxVoltage s" "targetVoltage (select_cells t s) = targetVoltage s"
  "dV (select_cells t s) = dV s" "balTime (select_cells t s) = balTime s"
  "testBalCount (select_cells t s) = testBalCount s" "error (select_cells t s) = error s"
  "verbose (select_cells t s) = verbose s" "battVoltage (select_cells t s) = battVoltage s"
  "capacity (select_cells t s) = capacity s" "meanVoltage (select_cells t s) = meanVoltage s"
  "minCell (select_cells t s) = minCell s" "maxCell (select_cells t s) = maxCell s"
  "minCellIndex (select_cells t s) = minCellIndex s" "maxCellindex (select_cells t s) = maxCellindex s"
  "charging (select_cells t s) = charging s" "balancing (select_cells t s) = balancing s"
  "nvm0 (select_cells t s) = nvm0 s" "adc_asleep (select_cells t s) = adc_asleep s"
  "console (select_cells t s) = console s" "length (drain (select_cells t s)) = length (drain s)"
  "length (gpio (select_cells t s)) = length (gpio s)"
  by (simp_all add: select_cells_def Let_def)

lemma select_cells_ones:
  assumes "drained s"
  shows "ones (drain (select_cells t s)) \<le> cellCount div 2"
proof -
  let ?d1 = "fold (\<lambda>i d. if t < cells s ! i then d else d[i := 0]) [0..<cellCount] (drain s)"
  let ?ds = "sorted_toDschg t s"
  from assms have "set ?d1 \<subseteq> {0}"
    unfolding drained_def by (rule clear_fold_zeros)
  then have d1: "ones ?d1 = 0"
    by (rule ones_zeros)
  have "ones (fold (\<lambda>i d. d[?ds ! i := 1]) [0..<count_of ?ds] ?d1)
          \<le> ones ?d1 + length [0..<count_of ?ds]"
    by (rule ones_fold_le)
  with d1 show ?thesis
    using count_of_le(1) [of ?ds] by (simp add: select_cells_def Let_def)
qed

lemma charge_decision_frame [simp]:
  "mode (charge_decision s) = mode s" "drain (charge_decision s) = drain s"
  "gpio (charge_decision s) = gpio s" "uart_out (charge_decision s) = uart_out s"
  "tmpCount (charge_decision s) = tmpCount s" "temps (charge_decision s) = temps s"
  "maxTemp (charge_decision s) = maxTemp s" "fanTrigger (charge_decision s) = fanTrigger s"
  "fan (charge_decision s) = fan s" "buz (charge_decision s) = buz s"
  "cells (charge_decision s) = cells s" "lastCells (charge_decision s) = lastCells s"
  "minVoltage (charge_decision s) = minVoltage s" "maxVoltage (charge_decision s) = maxVoltage s"
  "targetVoltage (charge_decision s) = targetVoltage s" "dV (charge_decision s) = dV s"
  "balTime (charge_decision s) = balTime s" "testBalCount (charge_decision s) = testBalCount s"
  "error (charge_decision s) = error s" "verbose (charge_decision s) = verbose s"
  "battVoltage (charge_decision s) = battVoltage s" "capacity (charge_decision s) = capacity s"
  "meanVoltage (charge_decision s) = meanVoltage s" "minCell (charge_decision s) = minCell s"
  "maxCell (charge_decision s) = maxCell s" "minCellIndex (charge_decision s) = minCellIndex s"
  "maxCellindex (charge_decision s) = maxCellindex s" "balancing (charge_decision s) = balancing s"
  "nvm0 (charge_decision s) = nvm0 s" "adc_asleep (charge_decision s) = adc_asleep s"
  "console (charge_decision s) = console s"
  by (simp_all add: charge_decision_def)

lemma init_wf: "wf (init h r)"
  by (simp add: wf_def init_def Let_def)

lemma init_drained: "drained (init h r)"
  by (simp add: drained_def init_def Let_def)

lemma monitor_wf: "wf s \<Longrightarrow> wf (fst (monitor inp s))"
  by (simp add: wf_def)

lemma monitor_drained: "drained s \<Longrightarrow> drained (fst (monitor inp s))"
  by (simp add: drained_def)

lemma balance_decision_frame [simp]:
  "cells (fst (balance_decision s)) = cells s"
  "lastCells (fst (balance_decision s)) = lastCells s"
  "length (drain (fst (balance_decision s))) = length (drain s)"
  "uart_out (fst (balance_decision s)) = uart_out s"
  by (simp_all add: balance_decision_def Let_def split: option.splits)

lemma balance_decision_ones:
  "drained s \<Longrightarrow> ones (drain (fst (balance_decision s))) \<le> cellCount div 2"
proof -
  assume d: "drained s"
  then have z: "ones (drain s) = 0" by (simp add: drained_def ones_zeros)
  have "drained (s\<lparr>balancing := True, testBalCount := 0\<rparr>)"
    using d by (simp add: drained_def)
  from select_cells_ones [OF this] z show ?thesis
    by (simp add: balance_decision_def Let_def split: option.splits)
qed

lemma balance_finish_frame [simp]:
  "cells (balance_finish inp s) = cells s"
  "lastCells (balance_finish inp s) = lastCells s"
  "uart_out (balance_finish inp s) = uart_out s"
  by (simp_all add: balance_finish_def)

lemma balance_finish_drained:
  "snd (balance_decision s) = None \<Longrightarrow> drained s \<Longrightarrow>
   drained (balance_finish inp (fst (balance_decision s)))"
  by (auto simp: balance_decision_def balance_finish_def Let_def drained_def
      split: option.splits if_splits)

lemma balance_finish_length:
  "length (drain (balance_finish inp s)) = length (drain s) \<or>
   length (drain (balance_finish inp s)) = cellCount"
  by (simp add: balance_finish_def)

lemma balance_decision_cases:
  "balance_decision t = (t\<lparr>balancing := False\<rparr>, None) \<or>
   balance_decision t = (t\<lparr>balancing := True, testBalCount := 0\<rparr>, Some UnboundLocalError) \<or>
   (\<exists>tg. balance_decision t =
      (select_cells tg (t\<lparr>balancing := True, testBalCount := 0\<rparr>), None))"
  by (auto simp: balance_decision_def Let_def split: option.splits)

lemma balance_decision_raise:
  "snd (balance_decision t) = Some e \<Longrightarrow>
   fst (balance_decision t) = t\<lparr>balancing := True, testBalCount := 0\<rparr>"
  using balance_decision_cases [of t] by auto

lemma balance_frame [simp]:
  "cells (fst (balance inp s)) = cells s"
  "lastCells (fst (balance inp s)) = lastCells s"
  "uart_out (fst (balance inp s)) = uart_out s"
  by (simp_all add: balance_def case_prod_beta split: option.splits)


lemma balance_drained: "drained s \<Longrightarrow> drained (fst (balance inp s))"
proof (cases "targetVoltage s < minVoltage s \<or> maxVoltage s < targetVoltage s")
  case True
  then show ?thesis by (simp add: balance_def drained_def)
next
  case False
  assume d: "drained s"
  then have dc: "drained (charge_decision s)" by (simp add: drained_def)
  show ?thesis
  proof (cases "snd (balance_decision (charge_decision s))")
    case None
    with False balance_finish_drained [OF None dc] show ?thesis
      by (simp add: balance_def case_prod_beta)
  next
    case (Some e)
    then have "fst (balance_decision (charge_decision s))
                 = (charge_decision s)\<lparr>balancing := True, testBalCount := 0\<rparr>"
      by (rule balance_decision_raise)
    with False Some dc show ?thesis
      by (simp add: balance_def drained_def case_prod_beta)
  qed
qed


lemma balance_length:
  "length (drain (fst (balance inp s))) = length (drain s) \<or>
   length (drain (fst (balance inp s))) = cellCount"
  using balance_finish_length [of inp "fst (balance_decision (charge_decision s))"]
  by (auto simp: balance_def case_prod_beta split: option.splits)


lemma balance_wf: "wf s \<Longrightarrow> wf (fst (balance inp s))"
  using balance_length [of inp s] by (auto simp: wf_def)


lemma actions_frame [simp]:
  "uart_out (fst (actions inp s)) = uart_out s"
  by (simp add: actions_def case_prod_beta split: option.splits)


lemma actions_wf: "wf s \<Longrightarrow> wf (fst (actions inp s))"
  using balance_wf [of s inp]
  by (auto simp: actions_def wf_def case_prod_beta split: option.splits)


lemma actions_drained: "drained s \<Longrightarrow> drained (fst (actions inp s))"
  using balance_drained [of s inp]
  by (auto simp: actions_def drained_def case_prod_beta split: option.splits)


lemma write_reg_frame:
  "write_reg p c data s = Some s1 \<Longrightarrow>
   drain s1 = drain s \<and> cells s1 = cells s \<and> lastCells s1 = lastCells s \<and>
   uart_out s1 = uart_out s"
  by (auto simp: write_reg_def split: if_splits)


lemma sercom_frame [simp]:
  "drain (fst (sercom p inp s)) = drain s"
  "cells (fst (sercom p inp s)) = cells s"
  "lastCells (fst (sercom p inp s)) = lastCells s"
  by (auto simp: sercom_def Let_def split: option.splits list.splits dest: write_reg_frame)


lemma control_wf: "wf s \<Longrightarrow> wf (fst (control inp s))"
  using monitor_wf [of s inp] actions_wf [of s inp] actions_wf [of "fst (monitor inp s)" inp]
  by (auto simp: control_def case_prod_beta split: flow.splits if_splits)


lemma control_drained: "drained s \<Longrightarrow> drained (fst (control inp s))"
  using monitor_drained [of s inp] actions_drained [of s inp]
    actions_drained [of "fst (monitor inp s)" inp]
  by (auto simp: control_def case_prod_beta split: flow.splits if_splits)


lemma update_wf: "wf s \<Longrightarrow> wf (fst (update p inp s))"
  using control_wf [of s inp]
  by (auto simp: update_def wf_def case_prod_beta split: flow.splits)


lemma update_drained: "drained s \<Longrightarrow> drained (fst (update p inp s))"
  using control_drained [of s inp]
  by (auto simp: update_def drained_def case_prod_beta split: flow.splits)


lemma reachable_wf: "reachable p s \<Longrightarrow> wf s"
  by (induction rule: reachable.induct) (simp_all add: init_wf update_wf)


lemma reachable_drained: "reachable p s \<Longrightarrow> drained s"
  by (induction rule: reachable.induct) (simp_all add: init_drained update_drained)

lemma drop_clear_fold:
  "\<forall>j\<in>set js. j < n \<Longrightarrow>
   drop n (fold (\<lambda>i d. if P i then d else d[i := v]) js d) = drop n d"
  by (induction js arbitrary: d) (simp_all add: drop_update_cancel)

lemma drop_set_fold:
  "\<forall>j\<in>set js. g j < n \<Longrightarrow>
   drop n (fold (\<lambda>i d. d[g i := v]) js d) = drop n d"
  by (induction js arbitrary: d) (simp_all add: drop_update_cancel)

lemma sorted_toDschg_bound: "i \<in> set (sorted_toDschg t s) \<Longrightarrow> i < cellCount"
  by (simp add: sorted_toDschg_def toDschg_def)

lemma select_cells_drop:
  "drop cellCount (drain (select_cells t s)) = drop cellCount (drain s)"
proof -
  let ?ds = "sorted_toDschg t s"
  have "\<forall>j\<in>set [0..<count_of ?ds]. ?ds ! j < cellCount"
    using count_of_le(2) [of ?ds] by (auto intro!: sorted_toDschg_bound [of _ t s])
  then show ?thesis
    by (simp add: select_cells_def Let_def drop_set_fold drop_clear_fold)
qed

lemma balance_decision_drop:
  "drop cellCount (drain (fst (balance_decision s))) = drop cellCount (drain s)"
  using balance_decision_cases [of s] by (auto simp: select_cells_drop)

lemma drained_drop: "drained s \<Longrightarrow> set (drop n (drain s)) \<subseteq> {0}"
  unfolding drained_def using set_drop_subset [of n "drain s"] by blast

subsection \<open>What one tick does to the plan and to the alarm outputs\<close>

lemma write_reg_outputs:
  "write_reg p c data s = Some s1 \<Longrightarrow>
   buz s1 = buz s \<and> temps s1 = temps s \<and> fan s1 = fan s \<and> console s1 = console s"
  by (auto simp: write_reg_def split: if_splits)

lemma sercom_outputs [simp]:
  "buz (fst (sercom p inp s)) = buz s"
  "temps (fst (sercom p inp s)) = temps s"
  "fan (fst (sercom p inp s)) = fan s"
  "console (fst (sercom p inp s)) = console s"
  by (auto simp: sercom_def Let_def split: option.splits list.splits dest: write_reg_outputs)

lemma control_shutdown:
  "mode s = 2 \<Longrightarrow>
   control inp s =
     ((sendIO (s\<lparr>buz := False, relay := False, drain := replicate cellCount 0\<rparr>))
        \<lparr>adc_asleep := True\<rparr>, Continue)"
  by (simp add: control_def actions_def)

lemma balance_finish_cases:
  "drain (balance_finish inp s) = drain s \<or>
   drain (balance_finish inp s) = replicate cellCount 0"
  by (simp add: balance_finish_def)

lemma balance_finish_selected:
  "balancing s \<Longrightarrow> drain (balance_finish inp s) = replicate cellCount 0"
  by (simp add: balance_finish_def)

lemma balance_drain_cases:
  "drain (fst (balance inp s)) = drain s \<or>
   drain (fst (balance inp s)) = replicate cellCount 0"
proof (cases "targetVoltage s < minVoltage s \<or> maxVoltage s < targetVoltage s")
  case True
  then show ?thesis by (simp add: balance_def)
next
  case False
  let ?c = "charge_decision s"
  from balance_decision_cases [of ?c] show ?thesis
  proof (elim disjE exE)
    assume a: "balance_decision ?c = (?c\<lparr>balancing := False\<rparr>, None)"
    from balance_finish_cases [of inp "?c\<lparr>balancing := False\<rparr>"] False a
    show ?thesis by (simp add: balance_def)
  next
    assume a: "balance_decision ?c
                 = (?c\<lparr>balancing := True, testBalCount := 0\<rparr>, Some UnboundLocalError)"
    with False show ?thesis by (simp add: balance_def)
  next
    fix tg
    assume a: "balance_decision ?c
                 = (select_cells tg (?c\<lparr>balancing := True, testBalCount := 0\<rparr>), None)"
    have "drain (balance_finish inp (select_cells tg (?c\<lparr>balancing := True, testBalCount := 0\<rparr>)))
            = replicate cellCount 0"
      by (rule balance_finish_selected) simp
    with False a show ?thesis by (simp add: balance_def)
  qed
qed

lemma actions_drain_cases:
  "drain (fst (actions inp s)) = drain s \<or>
   drain (fst (actions inp s)) = replicate cellCount 0"
  using balance_drain_cases [of inp s]
  by (auto simp: actions_def case_prod_beta split: option.splits)

lemma control_drain_cases:
  "drain (fst (control inp s)) = drain s \<or>
   drain (fst (control inp s)) = replicate cellCount 0"
  using actions_drain_cases [of inp s] actions_drain_cases [of inp "fst (monitor inp s)"]
  by (auto simp: control_def case_prod_beta split: flow.splits if_splits)

lemma update_drain_cases:
  "drain (fst (update p inp s)) = drain s \<or>
   drain (fst (update p inp s)) = replicate cellCount 0"
  using control_drain_cases [of inp s]
  by (auto simp: update_def case_prod_beta split: flow.splits)

lemma update_length_20:
  "length (drain s) = cellCount \<Longrightarrow> length (drain (fst (update p inp s))) = cellCount"
  using update_drain_cases [of p inp s] by auto

lemma later_length_20:
  "later p s t \<Longrightarrow> length (drain s) = cellCount \<Longrightarrow> length (drain t) = cellCount"
  by (induction rule: later.induct) (simp_all add: update_length_20)

lemma init_drain: "drain (init h r) = replicate 24 0"
  by (simp add: init_def Let_def)

lemma zeros_replicate_eq: "set d \<subseteq> {0::int} \<Longrightarrow> d = replicate (length d) 0"
  by (induction d) auto

subsection \<open>The discharge cap\<close>

text \<open>
  Claim C2. In every state the controller reaches between ticks, and right after the cell
  selection inside \<^verbatim>\<open>balance\<close> of the next tick whatever the hardware reads, at most
  \<open>cellCount div 2\<close> entries of the drain plan are set.
\<close>

theorem drain_cap:
  assumes "reachable p s"
  shows "ones (drain s) \<le> cellCount div 2 \<and>
         ones (drain (fst (balance_decision (charge_decision (fst (monitor inp s))))))
           \<le> cellCount div 2 \<and>
         ones (drain (fst (update p inp s))) \<le> cellCount div 2"
proof -
  from assms have d: "drained s" by (rule reachable_drained)
  then have "ones (drain s) = 0" by (simp add: drained_def ones_zeros)
  moreover have "drained (charge_decision (fst (monitor inp s)))"
    using monitor_drained [OF d] by (simp add: drained_def)
  then have "ones (drain (fst (balance_decision (charge_decision (fst (monitor inp s))))))
           \<le> cellCount div 2"
    by (rule balance_decision_ones)
  moreover have "ones (drain (fst (update p inp s))) = 0"
    using update_drained [OF d] by (simp add: drained_def ones_zeros)
  ultimately show ?thesis by simp
qed

theorem drain_cap_witness:
  "reachable decimal_py
     (fst (update decimal_py (steady uneven_pack 25 (Some [CHR 0x80]) (Some ''1''))
        (init hw3 uneven_pack))) \<and>
   ones (drain (fst (balance_decision (charge_decision (fst (monitor
      (steady uneven_pack 25 None None)
      (fst (update decimal_py (steady uneven_pack 25 (Some [CHR 0x80]) (Some ''1''))
        (init hw3 uneven_pack)))))))))
     \<le> cellCount div 2 \<and>
   ones (drain (fst (balance_decision (charge_decision (fst (monitor
      (steady uneven_pack 25 None None)
      (fst (update decimal_py (steady uneven_pack 25 (Some [CHR 0x80]) (Some ''1''))
        (init hw3 uneven_pack))))))))) = 10"
proof -
  let ?s = "fst (update decimal_py (steady uneven_pack 25 (Some [CHR 0x80]) (Some ''1''))
        (init hw3 uneven_pack))"
  have r: "reachable decimal_py ?s"
    by (rule reachable.tick) (rule reachable.boot)
  have "ones (drain (fst (balance_decision (charge_decision (fst (monitor
      (steady uneven_pack 25 None None) ?s)))))) = 10"
    by code_simp
  with r drain_cap [OF r, of "steady uneven_pack 25 None None"] show ?thesis by simp
qed

subsection \<open>The size of the drain plan\<close>

text \<open>
  Claim C9, as amended. Construction gives the plan 24 slots, all 0. Every tick either
  leaves the plan as it is or replaces it by \<open>cellCount\<close> slots of 0: between ticks the
  plan is 24 zeros until it is first cleared, and once it has \<open>cellCount\<close> slots it is
  \<open>cellCount\<close> zeros after every later tick. Cell selection inside \<^verbatim>\<open>balance\<close> keeps its
  length, and every slot past the cell count, where there is one, is 0.
\<close>

theorem drain_slots:
  assumes "reachable p s"
  shows "(length (drain s) = 24 \<or> length (drain s) = cellCount) \<and>
         set (drop cellCount (drain s)) \<subseteq> {0} \<and>
         length (drain (fst (balance_decision (charge_decision (fst (monitor inp s))))))
           = length (drain s) \<and>
         set (drop cellCount
            (drain (fst (balance_decision (charge_decision (fst (monitor inp s))))))) \<subseteq> {0} \<and>
         drain (init h cellRead) = replicate 24 0 \<and>
         (drain s = replicate 24 0 \<or> drain s = replicate cellCount 0) \<and>
         (drain (fst (update p inp s)) = drain s \<or>
          drain (fst (update p inp s)) = replicate cellCount 0) \<and>
         (\<forall>t. later p s t \<and> length (drain s) = cellCount \<longrightarrow>
              length (drain t) = cellCount \<and> drain t = replicate cellCount 0)"
proof -
  from assms have w: "wf s" and d: "drained s"
    by (rule reachable_wf, rule reachable_drained)
  have old: "(length (drain s) = 24 \<or> length (drain s) = cellCount) \<and>
         set (drop cellCount (drain s)) \<subseteq> {0} \<and>
         length (drain (fst (balance_decision (charge_decision (fst (monitor inp s))))))
           = length (drain s) \<and>
         set (drop cellCount
            (drain (fst (balance_decision (charge_decision (fst (monitor inp s))))))) \<subseteq> {0}"
    using w drained_drop [OF d, of cellCount]
    by (simp add: wf_def balance_decision_drop)
  have shape: "drain s = replicate 24 0 \<or> drain s = replicate cellCount 0"
    using w zeros_replicate_eq [of "drain s"] d by (auto simp: wf_def drained_def)
  have after: "length (drain t) = cellCount \<and> drain t = replicate cellCount 0"
    if l: "later p s t" and n: "length (drain s) = cellCount" for t
  proof -
    have len: "length (drain t) = cellCount" using l n by (rule later_length_20)
    have "reachable p t" using l assms
      by (induction rule: later.induct) (auto intro: reachable.tick)
    then have "drained t" by (rule reachable_drained)
    then have "drain t = replicate (length (drain t)) 0"
      unfolding drained_def by (rule zeros_replicate_eq)
    with len show ?thesis by simp
  qed
  from old shape init_drain [of h cellRead] update_drain_cases [of p inp s] after
  show ?thesis by blast
qed

theorem drain_slots_counterexample:
  "length (drain (fst (update decimal_py (steady (even_pack 3.8) 25 None None)
      (fst (update decimal_py (steady (even_pack 3.8) 25 (Some [CHR 0x80]) (Some ''2''))
         (init hw3 (even_pack 3.8))))))) = 20"
  by code_simp

theorem drain_slots_witness:
  "length (drain (fst (update decimal_py (steady (even_pack 3.8) 25 (Some [CHR 0x80]) (Some ''2''))
         (init hw3 (even_pack 3.8))))) = 24 \<and>
   set (drop cellCount (drain (fst (update decimal_py
         (steady (even_pack 3.8) 25 (Some [CHR 0x80]) (Some ''2''))
         (init hw3 (even_pack 3.8)))))) \<subseteq> {0} \<and>
   drain (fst (update decimal_py (steady (even_pack 3.8) 25 (Some [CHR 0x80]) (Some ''2''))
         (init hw3 (even_pack 3.8)))) = replicate 24 0"
proof -
  let ?s = "fst (update decimal_py (steady (even_pack 3.8) 25 (Some [CHR 0x80]) (Some ''2''))
         (init hw3 (even_pack 3.8)))"
  have r: "reachable decimal_py ?s"
    by (rule reachable.tick) (rule reachable.boot)
  have l: "length (drain ?s) = 24" by code_simp
  from drain_slots [OF r, of "steady (even_pack 3.8) 25 None None" hw3 "even_pack 3.8"]
  have "set (drop cellCount (drain ?s)) \<subseteq> {0}"
    and "drain ?s = replicate 24 0 \<or> drain ?s = replicate cellCount 0"
    by blast+
  with l show ?thesis by (auto simp: cellCount_def)
qed

subsection \<open>Aborting on a target outside the voltage band\<close>

lemma pack_bits_zeros: "set xs \<subseteq> {0} \<Longrightarrow> pack_bits xs = 0"
  by (fastforce simp: pack_bits_def dest: nth_mem)

lemma sendIO_zeros:
  "set (drain s) \<subseteq> {0} \<Longrightarrow> sendIO s = s\<lparr>gpio := replicate (length (gpio s)) 0\<rparr>"
proof -
  assume z: "set (drain s) \<subseteq> {0}"
  have "pack_bits (take 8 (drop (8 * i) (drain s))) = 0" for i
  proof (rule pack_bits_zeros)
    have "set (take 8 (drop (8 * i) (drain s))) \<subseteq> set (drain s)"
      using set_take_subset set_drop_subset by fast
    with z show "set (take 8 (drop (8 * i) (drain s))) \<subseteq> {0}" by blast
  qed
  then show ?thesis
    by (simp add: sendIO_def map_replicate_const)
qed

text \<open>
  Claim C3. When the configured target voltage lies strictly outside
  \<open>[minVoltage, maxVoltage]\<close>, \<^verbatim>\<open>balance\<close> does nothing but log the alert, sound the buzzer,
  open the relay, set the mode to Idle, clear the drain plan and push the cleared plan to
  the expanders: \<open>charging\<close>, \<open>balancing\<close> and the settle counter keep their values.
\<close>

theorem balance_abort:
  assumes "targetVoltage s < minVoltage s \<or> maxVoltage s < targetVoltage s"
  shows "balance inp s =
           (s\<lparr>console := console s @ [AlertTargetRange], buz := True, relay := False,
              mode := 0, drain := replicate cellCount 0,
              gpio := replicate (length (gpio s)) 0\<rparr>, None)"
  using assms by (simp add: balance_def sendIO_zeros)

theorem balance_abort_witness:
  "maxVoltage ((init hw3 (even_pack 3.8))\<lparr>mode := 1, targetVoltage := 5\<rparr>)
     < targetVoltage ((init hw3 (even_pack 3.8))\<lparr>mode := 1, targetVoltage := 5\<rparr>) \<and>
   mode (fst (balance (steady (even_pack 3.8) 25 None None)
     ((init hw3 (even_pack 3.8))\<lparr>mode := 1, targetVoltage := 5\<rparr>))) = 0 \<and>
   buz (fst (balance (steady (even_pack 3.8) 25 None None)
     ((init hw3 (even_pack 3.8))\<lparr>mode := 1, targetVoltage := 5\<rparr>))) \<and>
   drain (fst (balance (steady (even_pack 3.8) 25 None None)
     ((init hw3 (even_pack 3.8))\<lparr>mode := 1, targetVoltage := 5\<rparr>))) = replicate 20 0"
proof -
  let ?s = "(init hw3 (even_pack 3.8))\<lparr>mode := 1, targetVoltage := 5\<rparr>"
  have h: "maxVoltage ?s < targetVoltage ?s"
    by (simp add: init_def Let_def)
  then have "targetVoltage ?s < minVoltage ?s \<or> maxVoltage ?s < targetVoltage ?s" ..
  from balance_abort [OF this, of "steady (even_pack 3.8) 25 None None"] h
  show ?thesis by (simp add: cellCount_def)
qed

subsection \<open>Writes to the mode register\<close>




subsection \<open>The capacity map\<close>

text \<open>
  Claim C7. After every telemetry read the capacity is the clamped, rounded linear image
  of the total voltage, the total being the sum of the cell voltages just read, and lies
  between 0 and 100.
\<close>

theorem capacity_clamped:
  "capacity (getCells cellRead s)
     = spec_clamp (py_round ((100 / (Vfull - Vempty))
                     * (battVoltage (getCells cellRead s) - Vempty))) 0 100 \<and>
   battVoltage (getCells cellRead s) = sum_list (cells (getCells cellRead s)) \<and>
   0 \<le> capacity (getCells cellRead s) \<and> capacity (getCells cellRead s) \<le> 100"
  by (simp add: getCells_def Let_def spec_clamp_def Vfull_def Vempty_def)

subsection \<open>Replies of the serial protocol\<close>

lemma sercom_parse_error:
  assumes "uart_read1 inp = Some (c # rest)" and "128 \<le> (of_char c :: nat)"
    and "uart_read inp = Some data" and "write_reg p (of_char c) data s = None"
  shows "sercom p inp s = (s\<lparr>uart_out := uart_out s @ replicate 255 (char_of (0::nat))\<rparr>, None)"
  using assms by (simp add: sercom_def)

text \<open>
  Claim C4, at the payload \<open>''abc''\<close> for register 129: \<open>maxTemp\<close> keeps its value 80, but
  the reply \<^verbatim>\<open>bytes(255)\<close> is 255 bytes of value 0, not the single byte 255.
\<close>

theorem malformed_write_reply:
  "maxTemp (fst (update decimal_py (steady (even_pack 3.8) 25 (Some [CHR 0x81]) (Some ''abc''))
     (init hw3 (even_pack 3.8)))) = 80 \<and>
   uart_out (fst (update decimal_py (steady (even_pack 3.8) 25 (Some [CHR 0x81]) (Some ''abc''))
     (init hw3 (even_pack 3.8))))
     = uart_out (init hw3 (even_pack 3.8)) @ replicate 255 (CHR 0x00) \<and>
   uart_out (fst (update decimal_py (steady (even_pack 3.8) 25 (Some [CHR 0x81]) (Some ''abc''))
     (init hw3 (even_pack 3.8))))
     \<noteq> uart_out (init hw3 (even_pack 3.8)) @ [CHR 0xFF]"
  by code_simp

text \<open>
  Claim C8, at a capacity of 5 percent: the reply to read register 2 is the one character
  \<open>''5''\<close>; the capacity is written without the padding the other registers get.
\<close>

theorem capacity_reply_unpadded:
  "capacity (init hw3 (even_pack 3.44)) = 5 \<and>
   uart_out (fst (update decimal_py (steady (even_pack 3.44) 25 (Some [CHR 0x02]) None)
     (init hw3 (even_pack 3.44))))
     = uart_out (init hw3 (even_pack 3.44)) @ ''5''"
  by code_simp

text \<open>
  What the other read registers send: the float registers are padded with \<open>CHR ''0''\<close> to
  their width whenever the rendered value is no longer than it, and the status register
  is one character.
\<close>

lemma float_reply_width:
  "length (str_of p (battVoltage s)) \<le> 7 \<Longrightarrow> length (read_reg p 1 s) = 7"
  "length (str_of p (meanVoltage s)) \<le> 7 \<Longrightarrow> length (read_reg p 3 s) = 7"
  by (simp_all add: read_reg_def pad_def)

lemma length_concat_const:
  "\<forall>x\<in>set xs. length (f x) = n \<Longrightarrow> length (concat (map f xs)) = n * length xs"
  by (induction xs) simp_all

lemma cells_reply_width:
  assumes "length (cells s) = cellCount"
    and "\<forall>v\<in>set (cells s). length (str_of p v) \<le> 7"
  shows "length (read_reg p 4 s) = 160"
proof -
  have "\<forall>v\<in>set (cells s). length (pad 7 (str_of p v) @ [CHR 0x0A]) = 8"
    using assms(2) by (simp add: pad_def)
  from length_concat_const [OF this] assms(1) show ?thesis
    by (simp add: read_reg_def cellCount_def)
qed

lemma temps_reply_width:
  assumes "\<forall>v\<in>set (temps s). length (str_of p v) \<le> 5"
  shows "length (read_reg p 5 s) = 6 * length (temps s)"
proof -
  have "\<forall>v\<in>set (temps s). length (pad 5 (str_of p v) @ [CHR 0x0A]) = 6"
    using assms by (simp add: pad_def)
  from length_concat_const [OF this] show ?thesis
    by (simp add: read_reg_def)
qed

lemma status_reply: "read_reg p 6 s = (if mode s = 2 then ''1'' else ''0'')"
  by (simp add: read_reg_def)

lemma capacity_reply: "read_reg p 2 s = str_int (capacity s)"
  by (simp add: read_reg_def)

subsection \<open>Unstable measurements\<close>

lemma dCells_getCells:
  "length (cells s) = cellCount \<Longrightarrow>
   dCells (getCells rd s) = map (\<lambda>i. rd (cellPos ! i) - lastCells s ! i) [0..<cellCount]"
  by (simp add: dCells_def getCells_cells)

lemma py_max_gr: "xs \<noteq> [] \<Longrightarrow> c < py_max xs \<longleftrightarrow> (\<exists>x\<in>set xs. c < x)"
  by (simp add: py_max_Max Max_gr_iff)

lemma py_min_less: "xs \<noteq> [] \<Longrightarrow> py_min xs < c \<longleftrightarrow> (\<exists>x\<in>set xs. x < c)"
  by (simp add: py_min_Min Min_less_iff)

lemma ex_map_upt: "(\<exists>x\<in>set (map f [0..<n]). P x) \<longleftrightarrow> (\<exists>i<n. P (f i))"
  by auto

lemma unstable_max_min:
  assumes "length (cells s) = cellCount"
  shows "(0.05 < py_max (dCells (getCells rd s)) \<or> py_min (dCells (getCells rd s)) < - 0.05)
         \<longleftrightarrow> unstable rd (lastCells s)"
proof -
  let ?ds = "map (\<lambda>i. rd (cellPos ! i) - lastCells s ! i) [0..<cellCount]"
  have ne: "?ds \<noteq> []" by (simp add: cellCount_def)
  show ?thesis
    unfolding dCells_getCells [OF assms] py_max_gr [OF ne] py_min_less [OF ne]
      ex_map_upt unstable_def
    by blast
qed

lemma measure_loop_unstable:
  "mode s = 1 \<Longrightarrow> length (cells s) = cellCount \<Longrightarrow>
   (\<forall>j<n. unstable (fetchAll inp (k + j)) (lastCells s)) \<Longrightarrow>
   error (measure_loop inp k n s) = (if n = 0 then error s else True)"
proof (induction n arbitrary: k s)
  case 0
  show ?case by simp
next
  case (Suc n)
  let ?s1 = "getCells (fetchAll inp k) s"
  have u: "unstable (fetchAll inp k) (lastCells s)"
    using Suc.prems(3) [rule_format, of 0] by simp
  then have c: "0.05 < py_max (dCells ?s1) \<or> py_min (dCells ?s1) < - 0.05"
    using unstable_max_min [OF Suc.prems(2)] by simp
  have "\<forall>j<n. unstable (fetchAll inp (Suc k + j)) (lastCells (?s1\<lparr>error := True\<rparr>))"
    using Suc.prems(3) by (auto dest: spec [of _ "Suc j" for j])
  then have "error (measure_loop inp (Suc k) n (?s1\<lparr>error := True\<rparr>))
               = (if n = 0 then error (?s1\<lparr>error := True\<rparr>) else True)"
    using Suc.prems(1,2) by (intro Suc.IH) simp_all
  with c Suc.prems(1) show ?case by (simp add: Let_def)
qed

lemma monitor_fault:
  assumes "wf s" and "mode s = 1"
    and "\<forall>k<4. unstable (fetchAll inp k) (lastCells s)"
  shows "snd (monitor inp s) = Return" and "nvm0 (fst (monitor inp s)) = 1"
    and "buz (fst (monitor inp s))" and "mode (fst (monitor inp s)) = 2"
proof -
  have "error (measure_loop inp 0 4 (sendIO s)) = (if (4::nat) = 0 then error (sendIO s) else True)"
    using assms by (intro measure_loop_unstable) (simp_all add: wf_def)
  then have e: "error (measure_loop inp 0 4 (sendIO s))" by simp
  show "snd (monitor inp s) = Return" and "nvm0 (fst (monitor inp s)) = 1"
    and "buz (fst (monitor inp s))" and "mode (fst (monitor inp s)) = 2"
    using e by (simp_all add: monitor_def Let_def)
qed

text \<open>
  Claim C5. A tick that starts in Active mode and finds, on each of its four measurement
  attempts, some cell more than 0.05 V away from the previous snapshot ends (without
  raising) with the persistent byte at 1, the buzzer on and the mode at Shutdown. A
  start-up on that byte logs the previous fault and resets the byte to 0, so that the
  start-up after it logs nothing.
\<close>

theorem measurement_fault_latched:
  assumes "wf s" and "mode s = 1"
    and "\<forall>k<4. unstable (fetchAll inp k) (lastCells s)"
  shows "snd (update p inp s) = None \<and>
         nvm0 (fst (update p inp s)) = 1 \<and>
         buz (fst (update p inp s)) \<and>
         mode (fst (update p inp s)) = 2 \<and>
         console (init (h\<lparr>nvm_byte := nvm0 (fst (update p inp s))\<rparr>) rd)
           = [AlertPreviousFault] \<and>
         nvm0 (init (h\<lparr>nvm_byte := nvm0 (fst (update p inp s))\<rparr>) rd) = 0 \<and>
         console (init (h\<lparr>nvm_byte :=
                     nvm0 (init (h\<lparr>nvm_byte := nvm0 (fst (update p inp s))\<rparr>) rd)\<rparr>) rd')
           = []"
proof -
  note m = monitor_fault [OF assms]
  have c: "control inp s = (fst (monitor inp s), Return)"
    using assms(2) m(1) by (simp add: control_def case_prod_beta)
  have u: "update p inp s = (fst (monitor inp s), None)"
    by (simp add: update_def c)
  have i1: "console (init (h\<lparr>nvm_byte := 1\<rparr>) rd) = [AlertPreviousFault]"
    and i2: "nvm0 (init (h\<lparr>nvm_byte := 1\<rparr>) rd) = 0"
    and i3: "console (init (h\<lparr>nvm_byte := 0\<rparr>) rd') = []"
    by (simp_all add: init_def Let_def)
  show ?thesis
    using m(2-4) i1 i2 i3 by (simp add: u)
qed

theorem measurement_fault_latched_witness:
  "mode (fst (update decimal_py (steady (even_pack 4) 25 None None)
     (fst (update decimal_py (steady (even_pack 3.8) 25 (Some [CHR 0x80]) (Some ''1''))
        (init hw3 (even_pack 3.8)))))) = 2 \<and>
   nvm0 (fst (update decimal_py (steady (even_pack 4) 25 None None)
     (fst (update decimal_py (steady (even_pack 3.8) 25 (Some [CHR 0x80]) (Some ''1''))
        (init hw3 (even_pack 3.8)))))) = 1 \<and>
   buz (fst (update decimal_py (steady (even_pack 4) 25 None None)
     (fst (update decimal_py (steady (even_pack 3.8) 25 (Some [CHR 0x80]) (Some ''1''))
        (init hw3 (even_pack 3.8))))))"
proof -
  let ?s = "fst (update decimal_py (steady (even_pack 3.8) 25 (Some [CHR 0x80]) (Some ''1''))
        (init hw3 (even_pack 3.8)))"
  let ?inp = "steady (even_pack 4) 25 None None"
  have w: "wf ?s" by (intro update_wf init_wf)
  have m: "mode ?s = 1" by code_simp
  have "0 < cellCount \<and> (0.05 < even_pack 4 (cellPos ! 0) - lastCells ?s ! 0
          \<or> even_pack 4 (cellPos ! 0) - lastCells ?s ! 0 < - 0.05)"
    by code_simp
  then have "unstable (even_pack 4) (lastCells ?s)"
    unfolding unstable_def by (rule exI [of _ 0])
  then have u: "\<forall>k<4. unstable (fetchAll ?inp k) (lastCells ?s)"
    by (simp add: steady_def)
  from measurement_fault_latched [OF w m u, of decimal_py hw3 "even_pack 3.8" "even_pack 3.8"]
  show ?thesis by blast
qed


subsection \<open>Thermal shutdown\<close>

lemma fold_id: "\<forall>i\<in>set js. f i s = s \<Longrightarrow> fold f js s = s"
  by (induction js) simp_all

lemma scan_limits_ok:
  assumes "length (cells s) = cellCount"
    and "list_all (\<lambda>v. minVoltage s \<le> v \<and> v \<le> maxVoltage s) (cells s)"
  shows "scan_limits s = s"
  unfolding scan_limits_def
proof (rule fold_id, rule ballI)
  fix i assume "i \<in> set [0..<cellCount]"
  then have "i < length (cells s)" using assms(1) by simp
  with assms(2) have "minVoltage s \<le> cells s ! i \<and> cells s ! i \<le> maxVoltage s"
    by (simp add: list_all_length)
  then show "scan_cell i s = s" by (simp add: scan_cell_def)
qed

lemma read_temps_cong: "tmpCount s = tmpCount t \<Longrightarrow> read_temps inp k s = read_temps inp k t"
  by (simp add: read_temps_def)

lemma getTemps_trip:
  "maxTemp s + 20 < py_max (read_temps inp k s) \<Longrightarrow>
   snd (getTemps inp k s) \<and> mode (fst (getTemps inp k s)) = 2 \<and> buz (fst (getTemps inp k s))"
  by (simp add: getTemps_def Let_def)

lemma monitor_trip:
  assumes "wf s" and "mode s = 0 \<or> mode s = 1" and "scan_ok inp s"
    and "maxTemp s + 20 < py_max (read_temps inp 0 s)"
  shows "snd (monitor inp s) = Return \<and> mode (fst (monitor inp s)) = 2 \<and>
         buz (fst (monitor inp s))"
proof -
  let ?s2 = "measure_loop inp 0 4 (sendIO s)"
  let ?s4 = "?s2\<lparr>lastCells := cells ?s2\<rparr>"
  let ?s5 = "?s4\<lparr>buz := False\<rparr>"
  let ?s6 = "?s5\<lparr>minCell := py_min (cells ?s5), maxCell := py_max (cells ?s5),
                   minCellIndex := index_of (cells ?s5) (py_min (cells ?s5)),
                   maxCellindex := index_of (cells ?s5) (py_max (cells ?s5))\<rparr>"
  from assms(3) have e: "\<not> error ?s2"
    and l: "list_all (\<lambda>v. minVoltage s \<le> v \<and> v \<le> maxVoltage s) (cells ?s2)"
    by (simp_all add: scan_ok_def)
  have sc: "scan_limits ?s5 = ?s5"
    using assms(1) l by (intro scan_limits_ok) (simp_all add: wf_def)
  have m: "mode ?s5 \<noteq> 2" using assms(2) by auto
  have "read_temps inp 0 ?s6 = read_temps inp 0 s"
    by (rule read_temps_cong) simp
  with assms(4) have "maxTemp ?s6 + 20 < py_max (read_temps inp 0 ?s6)" by simp
  from getTemps_trip [OF this] e sc m assms(2) show ?thesis
    by (simp add: monitor_def Let_def)
qed

text \<open>
  Claim C1, as amended. Whatever the mode, a temperature scan whose highest reading
  exceeds \<open>maxTemp + 20\<close> sets the mode to Shutdown and asserts the buzzer. A tick that
  starts in Idle or Active and reaches its thermal scan with such readings ends, without
  serving the serial line, in Shutdown with the buzzer asserted. A tick that starts in
  Shutdown takes no temperature scan: its control part only switches the buzzer off,
  opens the relay, clears the plan, sends it and puts the ADCs to sleep, so the tick ends
  with the buzzer off and with the temperatures, the fan output and the console as they
  were, whatever the sensors read.
\<close>

theorem thermal_trip:
  "(maxTemp s + 20 < py_max (read_temps inp k s) \<longrightarrow>
      snd (getTemps inp k s) \<and> mode (fst (getTemps inp k s)) = 2 \<and>
      buz (fst (getTemps inp k s))) \<and>
   (maxTemp s + 20 < py_max (read_temps inp 0 s) \<and> wf s \<and> (mode s = 0 \<or> mode s = 1) \<and>
    scan_ok inp s \<longrightarrow>
      snd (update p inp s) = None \<and> mode (fst (update p inp s)) = 2 \<and>
      buz (fst (update p inp s)) \<and>
      update p inp s = (fst (monitor inp s), None) \<and>
      uart_out (fst (update p inp s)) = uart_out s) \<and>
   (mode s = 2 \<longrightarrow>
      control inp s =
        ((sendIO (s\<lparr>buz := False, relay := False, drain := replicate cellCount 0\<rparr>))
           \<lparr>adc_asleep := True\<rparr>, Continue) \<and>
      \<not> buz (fst (update p inp s)) \<and>
      temps (fst (update p inp s)) = temps s \<and>
      fan (fst (update p inp s)) = fan s \<and>
      console (fst (update p inp s)) = console s)"
proof (intro conjI impI)
  assume "maxTemp s + 20 < py_max (read_temps inp k s)"
  from getTemps_trip [OF this]
  show "snd (getTemps inp k s)" and "mode (fst (getTemps inp k s)) = 2"
    and "buz (fst (getTemps inp k s))"
    by simp_all
next
  assume a: "maxTemp s + 20 < py_max (read_temps inp 0 s) \<and> wf s \<and>
             (mode s = 0 \<or> mode s = 1) \<and> scan_ok inp s"
  then have md: "mode s = 0 \<or> mode s = 1" by simp
  from a have m: "snd (monitor inp s) = Return \<and> mode (fst (monitor inp s)) = 2 \<and>
                  buz (fst (monitor inp s))"
    by (intro monitor_trip) simp_all
  have "control inp s = (fst (monitor inp s), Return)"
    using md m by (simp add: control_def case_prod_beta)
  then have u: "update p inp s = (fst (monitor inp s), None)"
    by (simp add: update_def)
  from u m show "snd (update p inp s) = None" and "mode (fst (update p inp s)) = 2"
    and "buz (fst (update p inp s))"
    and "update p inp s = (fst (monitor inp s), None)"
    and "uart_out (fst (update p inp s)) = uart_out s"
    by simp_all
next
  assume md: "mode s = 2"
  let ?t = "(sendIO (s\<lparr>buz := False, relay := False, drain := replicate cellCount 0\<rparr>))
              \<lparr>adc_asleep := True\<rparr>"
  from md show c: "control inp s = (?t, Continue)"
    by (rule control_shutdown)
  then have u: "update p inp s = sercom p inp ?t"
    by (simp add: update_def)
  show "\<not> buz (fst (update p inp s))" and "temps (fst (update p inp s)) = temps s"
    and "fan (fst (update p inp s)) = fan s"
    and "console (fst (update p inp s)) = console s"
    unfolding u by simp_all
qed

theorem thermal_trip_counterexample:
  "mode (fst (update decimal_py (steady (even_pack 3.8) 150 None None)
      (init hw3 (even_pack 3.8)))) = 2 \<and>
   maxTemp (fst (update decimal_py (steady (even_pack 3.8) 150 None None)
      (init hw3 (even_pack 3.8)))) + 20
     < py_max (read_temps (steady (even_pack 3.8) 150 None None) 0
         (fst (update decimal_py (steady (even_pack 3.8) 150 None None)
            (init hw3 (even_pack 3.8))))) \<and>
   mode (fst (update decimal_py (steady (even_pack 3.8) 150 None None)
     (fst (update decimal_py (steady (even_pack 3.8) 150 None None)
        (init hw3 (even_pack 3.8)))))) = 2 \<and>
   \<not> buz (fst (update decimal_py (steady (even_pack 3.8) 150 None None)
     (fst (update decimal_py (steady (even_pack 3.8) 150 None None)
        (init hw3 (even_pack 3.8))))))"
  by code_simp

theorem thermal_trip_witness:
  "mode (init hw3 (even_pack 3.8)) = 0 \<and>
   mode (fst (update decimal_py (steady (even_pack 3.8) 150 None None)
      (init hw3 (even_pack 3.8)))) = 2 \<and>
   buz (fst (update decimal_py (steady (even_pack 3.8) 150 None None)
      (init hw3 (even_pack 3.8)))) \<and>
   \<not> buz (fst (update decimal_py (steady (even_pack 3.8) 150 None None)
     (fst (update decimal_py (steady (even_pack 3.8) 150 None None)
        (init hw3 (even_pack 3.8))))))"
proof -
  let ?s = "init hw3 (even_pack 3.8)"
  let ?inp = "steady (even_pack 3.8) 150 None None"
  let ?s1 = "fst (update decimal_py ?inp ?s)"
  have h: "maxTemp ?s + 20 < py_max (read_temps ?inp 0 ?s)" by code_simp
  have m: "mode ?s = 0" by code_simp
  have ok: "scan_ok ?inp ?s" by code_simp
  note t = thermal_trip [of ?s ?inp 0 decimal_py]
  from t h m ok init_wf [of hw3 "even_pack 3.8"]
  have a: "mode ?s1 = 2" and b: "buz ?s1" by blast+
  from thermal_trip [of ?s1 ?inp 0 decimal_py] a
  have "\<not> buz (fst (update decimal_py ?inp ?s1))" by blast
  with m a b show ?thesis by blast
qed

subsection \<open>Cell selection\<close>

lemma nth_clear_fold:
  "x < length d \<Longrightarrow>
   fold (\<lambda>i d. if P i then d else d[i := v]) js d ! x
     = (if x \<in> set js \<and> \<not> P x then v else d ! x)"
proof (induction js arbitrary: d)
  case Nil
  show ?case by simp
next
  case (Cons j js)
  show ?case
  proof (cases "P j")
    case True
    with Cons show ?thesis by auto
  next
    case False
    have "fold (\<lambda>i d. if P i then d else d[i := v]) js (d[j := v]) ! x
            = (if x \<in> set js \<and> \<not> P x then v else d[j := v] ! x)"
      using Cons.prems by (intro Cons.IH) simp
    with False Cons.prems show ?thesis
      by (cases "x = j") (simp_all add: nth_list_update)
  qed
qed

lemma nth_set_fold:
  "x < length d \<Longrightarrow>
   fold (\<lambda>i d. d[g i := v]) js d ! x = (if x \<in> g ` set js then v else d ! x)"
  by (induction js arbitrary: d) (auto simp: nth_list_update)

lemma select_cells_nth:
  assumes "x < length (drain s)"
  shows "drain (select_cells t s) ! x =
     (if x \<in> set (take (count_of (sorted_toDschg t s)) (sorted_toDschg t s)) then 1
      else if x < cellCount \<and> \<not> t < cells s ! x then 0
      else drain s ! x)"
proof -
  let ?ds = "sorted_toDschg t s"
  have "(!) ?ds ` set [0..<count_of ?ds] = set (take (count_of ?ds) ?ds)"
    using nth_image [of "count_of ?ds" ?ds] count_of_le(2) [of ?ds] by simp
  with assms show ?thesis
    by (simp add: select_cells_def Let_def nth_set_fold nth_clear_fold)
qed

lemma set_sorted_toDschg:
  "set (sorted_toDschg t s) = {i. i < cellCount \<and> t < cells s ! i}"
  by (auto simp: sorted_toDschg_def toDschg_def)

lemma distinct_sorted_toDschg: "distinct (sorted_toDschg t s)"
  by (simp add: sorted_toDschg_def toDschg_def)

lemma descending_sorted_toDschg:
  "sorted_wrt (\<lambda>i j. cells s ! j \<le> cells s ! i) (sorted_toDschg t s)"
proof -
  have "sorted (map (\<lambda>x. - (cells s ! x)) (sorted_toDschg t s))"
    unfolding sorted_toDschg_def by (rule sorted_sort_key)
  then show ?thesis by (simp add: sorted_map)
qed

lemma stable_sorted_toDschg:
  "filter (\<lambda>i. cells s ! i = v) (sorted_toDschg t s)
     = filter (\<lambda>i. cells s ! i = v) (toDschg t s)"
  using sort_key_stable [of "\<lambda>x. - (cells s ! x)" "- v" "toDschg t s"]
  by (simp add: sorted_toDschg_def)

lemma ties_sorted_toDschg:
  "sorted_wrt (<) (filter (\<lambda>i. cells s ! i = v) (sorted_toDschg t s))"
  unfolding stable_sorted_toDschg toDschg_def
  by (intro sorted_wrt_filter) simp

text \<open>
  Claim C6. The cells collected for discharge are exactly those strictly above the target;
  they are ordered by descending voltage, cells of equal voltage by ascending index; the
  first \<open>min (length, cellCount div 2)\<close> of them get their plan entry set, every cell at or
  below the target gets its entry cleared, and a cell above the target that is not
  selected keeps its entry. On the pack of 19 cells at 4.20 V and one at 3.50 V, with
  \<open>dV = 0.01\<close> and \<open>targetVoltage = 3.85\<close>, the target is 3.505 V, the selected cells are
  cells 0 to 9 and cell 19 is not in the plan.
\<close>

theorem discharge_selection:
  assumes "cellCount \<le> length (drain s)"
  shows "set (sorted_toDschg t s) = {i. i < cellCount \<and> t < cells s ! i} \<and>
         distinct (sorted_toDschg t s) \<and>
         sorted_wrt (\<lambda>i j. cells s ! j \<le> cells s ! i) (sorted_toDschg t s) \<and>
         (\<forall>v. sorted_wrt (<) (filter (\<lambda>i. cells s ! i = v) (sorted_toDschg t s))) \<and>
         length (take (count_of (sorted_toDschg t s)) (sorted_toDschg t s))
           = min (length (sorted_toDschg t s)) (cellCount div 2) \<and>
         (\<forall>i \<in> set (take (count_of (sorted_toDschg t s)) (sorted_toDschg t s)).
            drain (select_cells t s) ! i = 1) \<and>
         (\<forall>i<cellCount. cells s ! i \<le> t \<longrightarrow> drain (select_cells t s) ! i = 0) \<and>
         (\<forall>i<cellCount. t < cells s ! i \<and>
              i \<notin> set (take (count_of (sorted_toDschg t s)) (sorted_toDschg t s)) \<longrightarrow>
            drain (select_cells t s) ! i = drain s ! i) \<and>
         cells active_uneven = replicate 19 4.2 @ [3.5] \<and>
         dV active_uneven = 0.01 \<and> targetVoltage active_uneven = 3.85 \<and>
         choose_target (charge_decision active_uneven) = Some 3.505 \<and>
         take (count_of (sorted_toDschg 3.505 (charge_decision active_uneven)))
           (sorted_toDschg 3.505 (charge_decision active_uneven)) = [0..<10] \<and>
         drain (fst (balance_decision (charge_decision active_uneven)))
           = replicate 10 1 @ replicate 14 0"
proof -
  let ?ds = "sorted_toDschg t s"
  let ?sel = "take (count_of ?ds) ?ds"
  have len: "length ?sel = min (length ?ds) (cellCount div 2)"
    by (simp add: count_of_def)
  have in_range: "i < length (drain s)" if "i < cellCount" for i
    using that assms by simp
  have sel_range: "i < cellCount" if "i \<in> set ?sel" for i
    using that set_take_subset [of "count_of ?ds" ?ds] set_sorted_toDschg [of t s] by auto
  have sel_above: "t < cells s ! i" if "i \<in> set ?sel" for i
    using that set_take_subset [of "count_of ?ds" ?ds] set_sorted_toDschg [of t s] by auto
  have one: "\<forall>i \<in> set ?sel. drain (select_cells t s) ! i = 1"
    using sel_range in_range by (simp add: select_cells_nth)
  have zero: "\<forall>i<cellCount. cells s ! i \<le> t \<longrightarrow> drain (select_cells t s) ! i = 0"
  proof (intro allI impI)
    fix i assume i: "i < cellCount" and low: "cells s ! i \<le> t"
    then have "i \<notin> set ?sel" using sel_above [of i] by auto
    with i low in_range [OF i] show "drain (select_cells t s) ! i = 0"
      by (simp add: select_cells_nth)
  qed
  have keep: "\<forall>i<cellCount. t < cells s ! i \<and> i \<notin> set ?sel \<longrightarrow>
                drain (select_cells t s) ! i = drain s ! i"
    using in_range by (simp add: select_cells_nth)
  have scenario:
    "cells active_uneven = replicate 19 4.2 @ [3.5]"
    "dV active_uneven = 0.01" "targetVoltage active_uneven = 3.85"
    "choose_target (charge_decision active_uneven) = Some 3.505"
    "take (count_of (sorted_toDschg 3.505 (charge_decision active_uneven)))
       (sorted_toDschg 3.505 (charge_decision active_uneven)) = [0..<10]"
    "drain (fst (balance_decision (charge_decision active_uneven)))
       = replicate 10 1 @ replicate 14 0"
    by code_simp+
  show ?thesis
    using set_sorted_toDschg [of t s] distinct_sorted_toDschg [of t s]
      descending_sorted_toDschg [of s t] ties_sorted_toDschg [of s _ t]
      len one zero keep scenario
    by blast
qed

theorem discharge_selection_witness:
  "cellCount \<le> length (drain (charge_decision active_uneven)) \<and>
   drain (select_cells 3.505 (charge_decision active_uneven)) ! 19 = 0 \<and>
   drain (select_cells 3.505 (charge_decision active_uneven)) ! 0 = 1"
proof -
  let ?s = "charge_decision active_uneven"
  have h: "cellCount \<le> length (drain ?s)" by code_simp
  have c: "(19::nat) < cellCount" "cells ?s ! 19 \<le> 3.505"
    "0 \<in> set (take (count_of (sorted_toDschg 3.505 ?s)) (sorted_toDschg 3.505 ?s))"
    by code_simp+
  from discharge_selection [OF h, of "3.505"] c h show ?thesis by blast
qed

end
